theory Spec2Isabelle
  imports Complex_Main "HOL-Library.Word"
begin

section \<open>Strings\<close>

text \<open>
  A JavaScript string is a sequence of 16-bit code units.  Literals of the scripts are
  written through \<open>js\<close>; the three non-ASCII characters of the captions are given by
  their code units (U+2713, U+2717, and the surrogate pair of U+1F44B).
\<close>

type_synonym jsstring = "16 word list"

definition js :: "string \<Rightarrow> jsstring" where
  "js = map of_char"

text \<open>
  \<open>String.prototype.trim\<close> and the regular expression class \<open>\s\<close> use the same set:
  the WhiteSpace and LineTerminator code points of ECMAScript.
\<close>

definition isWhiteSpace :: "16 word \<Rightarrow> bool" where
  "isWhiteSpace c \<longleftrightarrow>
     c = 0x0009 \<or> c = 0x000A \<or> c = 0x000B \<or> c = 0x000C \<or> c = 0x000D \<or> c = 0x0020 \<or>
     c = 0x00A0 \<or> c = 0x1680 \<or> (0x2000 \<le> c \<and> c \<le> 0x200A) \<or> c = 0x2028 \<or> c = 0x2029 \<or>
     c = 0x202F \<or> c = 0x205F \<or> c = 0x3000 \<or> c = 0xFEFF"

definition trim :: "jsstring \<Rightarrow> jsstring" where
  "trim str = rev (dropWhile isWhiteSpace (rev (dropWhile isWhiteSpace str)))"

text \<open>Decimal rendering of a non-negative integer, as a template literal prints a length.\<close>

fun digits10 :: "nat \<Rightarrow> nat list \<Rightarrow> nat list" where
  "digits10 n acc = (if n < 10 then n # acc else digits10 (n div 10) (n mod 10 # acc))"

declare digits10.simps [simp del]

definition digitChar :: "nat \<Rightarrow> 16 word" where
  "digitChar d = 0x30 + of_nat d"

definition natToString :: "nat \<Rightarrow> jsstring" where
  "natToString n = map digitChar (digits10 n [])"

section \<open>Data model of the chat controller\<close>

datatype ChatType = Design | Website


record ImageResult =
  img_type :: jsstring
  img_url :: jsstring

text \<open>
  \<open>images\<close> is whatever \<open>data.images\<close> was when the turn was stored: \<open>None\<close> stands
  for \<open>undefined\<close> or \<open>null\<close>.
\<close>

record ChatHistoryEntry =
  userMessage :: jsstring
  images :: "ImageResult list option"

text \<open>The object literal \<open>{design: [], website: []}\<close>.\<close>

record ChatHistory =
  design :: "ChatHistoryEntry list"
  website :: "ChatHistoryEntry list"


fun history_push :: "ChatType \<Rightarrow> ChatHistoryEntry \<Rightarrow> ChatHistory \<Rightarrow> ChatHistory" where
  "history_push Design e h = h\<lparr>design := design h @ [e]\<rparr>"
| "history_push Website e h = h\<lparr>website := website h @ [e]\<rparr>"

text \<open>
  A chat bubble: the \<open>div\<close> with class \<open>dapp__message _user\<close> or \<open>dapp__message _ai\<close>,
  optionally also \<open>_loading\<close>, and its text.
\<close>

datatype author = User | Ai

record message =
  author :: author
  loading :: bool
  textContent :: jsstring

text \<open>Elements placed into the image panels (style animation is presentation only).\<close>

datatype node = Img jsstring jsstring | Div jsstring "node list"

text \<open>What the backend is asked, and what \<open>fetch\<close> can come back with.\<close>

datatype request = GenerateImages jsstring ChatType | GetStats

text \<open>
  The JSON object of an answer.  \<open>data_images\<close> is \<open>None\<close> when the object has no array
  under \<open>images\<close> (the property is missing or \<open>null\<close>); otherwise it holds the
  elements, each an object with \<open>type\<close> and \<open>url\<close>.  \<open>data_type\<close> is the string under
  \<open>type\<close>; a missing one behaves like any string other than \<open>design\<close> and
  \<open>website\<close>.
\<close>

record GenerateResponse =
  data_images :: "ImageResult list option"
  data_type :: jsstring

text \<open>
  \<open>NetworkError\<close>: the promise of \<open>fetch\<close> rejects.  \<open>Response status body\<close>: a
  response arrived; \<open>body\<close> is \<open>None\<close> when \<open>response.json()\<close> rejects.
\<close>

datatype 'a fetch_result = NetworkError | Response nat "'a option"

definition response_ok :: "nat \<Rightarrow> bool" where
  "response_ok status \<longleftrightarrow> 200 \<le> status \<and> status \<le> 299"

text \<open>The body the \<open>try\<close> block goes on with, if it gets that far.\<close>

fun received :: "'a fetch_result \<Rightarrow> 'a option" where
  "received NetworkError = None"
| "received (Response status body) = (if response_ok status then body else None)"

text \<open>One slot of the statistics ticker: the text of its \<open>span\<close> and of its \<open>p\<close>, if present.\<close>

record counter_item =
  span_text :: "jsstring option"
  label_text :: "jsstring option"

text \<open>Observable effects on the transcript, the input field and the network, in order.\<close>

datatype effect =
    ChatAppend message
  | ChatRemove message
  | ChatClear
  | InputSet jsstring
  | Fetch request

record page =
  inputValue :: jsstring
  currentChatType :: ChatType
  chatHistory :: ChatHistory
  chat :: "message list"
  websiteActive :: bool
  designActive :: bool
  logos :: "node list"
  imgs :: "node list"
  websitePanel :: "node list"
  counterItems :: "counter_item list"
  statsUpdateTimer :: "nat option"
  timers :: "nat list"
  nextTimerId :: nat
  effects :: "effect list"

section \<open>Rendering images\<close>

definition logoImg :: "ImageResult \<Rightarrow> node" where
  "logoImg img = Img (img_url img) (js ''Generated Logo'')"

definition bannerImg :: "ImageResult \<Rightarrow> node" where
  "bannerImg img = Img (img_url img) (js ''Generated Banner'')"

text \<open>
  One round of the \<open>forEach\<close> of \<open>displayDesignImages\<close>, on the children of the logo
  container and of \<open>twoContainer\<close>.
\<close>

fun designStep :: "node list \<times> node list \<Rightarrow> ImageResult \<Rightarrow> node list \<times> node list" where
  "designStep (lg, two) img =
     (if img_type img = js ''logo'' then (lg @ [logoImg img], two)
      else if img_type img = js ''banner'' then (lg, two @ [bannerImg img])
      else (lg, two))"

definition displayDesignImages :: "ImageResult list \<Rightarrow> page \<Rightarrow> page" where
  "displayDesignImages imgsIn s =
     (let (lg, two) = foldl designStep ([], []) imgsIn
      in s\<lparr>logos := lg, imgs := [Div (js ''dapp__two'') two]\<rparr>)"

definition displayWebsiteImage :: "ImageResult list \<Rightarrow> page \<Rightarrow> page" where
  "displayWebsiteImage imgsIn s =
     (if length imgsIn > 0
      then s\<lparr>websitePanel := [Img (img_url (imgsIn ! 0)) (js ''Generated Website'')]\<rparr>
      else s)"

definition displayImages :: "ImageResult list \<Rightarrow> jsstring \<Rightarrow> page \<Rightarrow> page" where
  "displayImages imgsIn ty s =
     (if ty = js ''design'' then displayDesignImages imgsIn s
      else if ty = js ''website'' then displayWebsiteImage imgsIn s
      else s)"

text \<open>
  A call that can end in a \<open>TypeError\<close>: either way the page is as the call left it.
\<close>

datatype outcome = Returned page | Threw page

fun pageOf :: "outcome \<Rightarrow> page" where
  "pageOf (Returned s) = s"
| "pageOf (Threw s) = s"

text \<open>
  \<open>displayImages(undefined, ty)\<close>: \<open>displayDesignImages\<close> empties both slots and appends
  the row before \<open>images.forEach\<close> throws, \<open>displayWebsiteImage\<close> throws at once on
  \<open>images.length\<close>, and any other type touches nothing.
\<close>

definition displayImages_undefined :: "jsstring \<Rightarrow> page \<Rightarrow> outcome" where
  "displayImages_undefined ty s =
     (if ty = js ''design'' then Threw (s\<lparr>logos := [], imgs := [Div (js ''dapp__two'') []]\<rparr>)
      else if ty = js ''website'' then Threw s
      else Returned s)"

text \<open>The call \<open>displayImages(images, ty)\<close> on whatever \<open>images\<close> holds.\<close>

definition callDisplayImages :: "ImageResult list option \<Rightarrow> jsstring \<Rightarrow> page \<Rightarrow> outcome" where
  "callDisplayImages imgsIn ty s =
     (case imgsIn of
        None \<Rightarrow> displayImages_undefined ty s
      | Some xs \<Rightarrow> Returned (displayImages xs ty s))"

section \<open>The transcript\<close>

definition addMessageToChat :: "jsstring \<Rightarrow> author \<Rightarrow> bool \<Rightarrow> page \<Rightarrow> page" where
  "addMessageToChat msg ty isLoading s =
     (let messageDiv = \<lparr>author = ty, loading = isLoading, textContent = msg\<rparr>
      in s\<lparr>chat := chat s @ [messageDiv], effects := effects s @ [ChatAppend messageDiv]\<rparr>)"

text \<open>\<open>querySelector\<close> returns the first match in document order.\<close>

fun removeFirstLoading :: "message list \<Rightarrow> message list" where
  "removeFirstLoading [] = []"
| "removeFirstLoading (m # ms) = (if loading m then ms else m # removeFirstLoading ms)"

definition removeLoadingMessage :: "page \<Rightarrow> page" where
  "removeLoadingMessage s =
     (case find loading (chat s) of
        None \<Rightarrow> s
      | Some loadingMessage \<Rightarrow>
          s\<lparr>chat := removeFirstLoading (chat s),
            effects := effects s @ [ChatRemove loadingMessage]\<rparr>)"

definition loadingMsg :: "ChatType \<Rightarrow> jsstring" where
  "loadingMsg ty =
     (if ty = Design then js ''Generating logo and banner...''
      else js ''Generating website mockup...'')"

definition successMsg :: "ChatType \<Rightarrow> ImageResult list \<Rightarrow> jsstring" where
  "successMsg ty imgsIn =
     (if ty = Design
      then 0x2713 # js '' Successfully generated '' @ natToString (length imgsIn)
             @ js '' images (logo + banner)''
      else 0x2713 # js '' Website mockup generated successfully!'')"

text \<open>
  The conditional that builds the success caption: on the design tab the template reads
  \<open>images.length\<close>, which throws when \<open>images\<close> is undefined (\<open>None\<close>).
\<close>

definition successCaption :: "ChatType \<Rightarrow> ImageResult list option \<Rightarrow> jsstring option" where
  "successCaption ty imgsIn =
     (if ty = Design then map_option (successMsg Design) imgsIn
      else Some (successMsg Website []))"

definition failureMsg :: jsstring where
  "failureMsg = 0x2717 # js '' Error generating images. Please try again.''"

section \<open>Sending a message\<close>

text \<open>
  \<open>sendMessage\<close> is an async function.  \<open>sendMessage_start\<close> is what runs up to the
  \<open>await fetch\<close>: it returns the page and, when a request was issued, the local
  \<open>userMessage\<close> the continuation keeps.  \<open>sendMessage_resume\<close> is the continuation, run
  on the outcome of the request; it reads the globals again, and every exception of its
  \<open>try\<close> block, also one thrown after the success caption, ends in the \<open>catch\<close>.
  \<open>sendMessage\<close> is one invocation with nothing else running in between.
\<close>

definition sendMessage_start :: "page \<Rightarrow> page \<times> jsstring option" where
  "sendMessage_start s =
     (let userMsg = trim (inputValue s)
      in if userMsg = [] then (s, None)
         else
           let s1 = addMessageToChat userMsg User False s;
               s2 = s1\<lparr>inputValue := [], effects := effects s1 @ [InputSet []]\<rparr>;
               s3 = addMessageToChat (loadingMsg (currentChatType s2)) Ai True s2;
               s4 = s3\<lparr>effects := effects s3
                        @ [Fetch (GenerateImages userMsg (currentChatType s3))]\<rparr>
           in (s4, Some userMsg))"

definition sendMessage_catch :: "page \<Rightarrow> page" where
  "sendMessage_catch s = addMessageToChat failureMsg Ai False (removeLoadingMessage s)"

definition sendMessage_resume ::
    "jsstring \<Rightarrow> GenerateResponse fetch_result \<Rightarrow> page \<Rightarrow> page" where
  "sendMessage_resume userMsg r s =
     (case received r of
        None \<Rightarrow> sendMessage_catch s
      | Some d \<Rightarrow>
          let s1 = removeLoadingMessage s
          in case successCaption (currentChatType s1) (data_images d) of
               None \<Rightarrow> sendMessage_catch s1
             | Some caption \<Rightarrow>
                 (case callDisplayImages (data_images d) (data_type d)
                         (addMessageToChat caption Ai False s1) of
                    Threw s3 \<Rightarrow> sendMessage_catch s3
                  | Returned s3 \<Rightarrow>
                      s3\<lparr>chatHistory :=
                           history_push (currentChatType s3)
                             \<lparr>userMessage = userMsg, images = data_images d\<rparr>
                             (chatHistory s3)\<rparr>))"

definition sendMessage :: "GenerateResponse fetch_result \<Rightarrow> page \<Rightarrow> page" where
  "sendMessage r s =
     (case sendMessage_start s of
        (s', None) \<Rightarrow> s'
      | (s', Some userMsg) \<Rightarrow> sendMessage_resume userMsg r s')"

section \<open>Tabs and history replay\<close>














text \<open>
  The transcript that was on screen the last time the given tab was the current one, over
  the pages of a session in order; \<open>None\<close> if it never was.
\<close>

fun lastShown :: "ChatType \<Rightarrow> page list \<Rightarrow> message list option" where
  "lastShown ty [] = None"
| "lastShown ty (s # later) =
     (case lastShown ty later of
        Some tr \<Rightarrow> Some tr
      | None \<Rightarrow> if currentChatType s = ty then Some (chat s) else None)"








section \<open>Numbers\<close>

text \<open>
  A Number is a binary64 value.  A finite one is kept as the rational it denotes, next to
  the two infinities and NaN.  Negative zero is not kept apart from zero: the scripts
  print, compare and round down both zeros alike and never divide by a variable.
\<close>

datatype number = Finite rat | PosInf | NegInf | NaN

text \<open>The number of binary digits of a positive integer.\<close>

function bits :: "int \<Rightarrow> int" where
  "bits n = (if n \<le> 0 then 0 else 1 + bits (n div 2))"
  by pat_completeness auto
termination
  by (relation "measure nat") auto

declare bits.simps [simp del]

text \<open>For a positive \<open>x\<close>, the exponent \<open>k\<close> with \<open>2^k \<le> x < 2^(k+1)\<close>.\<close>

definition ilog2 :: "rat \<Rightarrow> int" where
  "ilog2 x =
     (let (p, q) = quotient_of x; d = bits p - bits q
      in if 2 powi d \<le> x then d else d - 1)"

definition roundHalfEven :: "rat \<Rightarrow> int" where
  "roundHalfEven x =
     (let f = \<lfloor>x\<rfloor>; r = x - of_int f
      in if r < 1 / 2 then f
         else if 1 / 2 < r then f + 1
         else if even f then f else f + 1)"

text \<open>
  Rounding to the nearest value with a significand of 53 bits, ties to even; below
  \<open>2^-1022\<close> the spacing stays at \<open>2^-1074\<close> (subnormal numbers).  The exponent is not
  bounded from above here: overflow is the business of \<open>round64\<close>.
\<close>

definition fl :: "rat \<Rightarrow> rat" where
  "fl x =
     (if x = 0 then 0
      else let e = max (ilog2 \<bar>x\<bar> - 52) (- 1074);
               m = roundHalfEven (\<bar>x\<bar> / 2 powi e)
           in sgn x * of_int m * 2 powi e)"

text \<open>The Number for an exact result: what rounds to \<open>2^1024\<close> or beyond is infinite.\<close>

definition round64 :: "rat \<Rightarrow> number" where
  "round64 x =
     (let y = fl x
      in if 2 ^ 1024 \<le> \<bar>y\<bar> then (if 0 < x then PosInf else NegInf) else Finite y)"

text \<open>The rationals that are finite binary64 values.\<close>

definition binary64 :: "rat \<Rightarrow> bool" where
  "binary64 x \<longleftrightarrow> fl x = x \<and> \<bar>x\<bar> < 2 ^ 1024"

fun negate :: "number \<Rightarrow> number" where
  "negate (Finite a) = Finite (- a)"
| "negate PosInf = NegInf"
| "negate NegInf = PosInf"
| "negate NaN = NaN"

text \<open>The operators \<open>+\<close>, \<open>-\<close> and \<open>*\<close> on Numbers.\<close>

fun add :: "number \<Rightarrow> number \<Rightarrow> number" where
  "add (Finite a) (Finite b) = round64 (a + b)"
| "add NaN b = NaN"
| "add a NaN = NaN"
| "add PosInf NegInf = NaN"
| "add NegInf PosInf = NaN"
| "add PosInf b = PosInf"
| "add NegInf b = NegInf"
| "add (Finite a) b = b"

definition sub :: "number \<Rightarrow> number \<Rightarrow> number" where
  "sub a b = add a (negate b)"

fun mul :: "number \<Rightarrow> number \<Rightarrow> number" where
  "mul (Finite a) (Finite b) = round64 (a * b)"
| "mul NaN b = NaN"
| "mul a NaN = NaN"
| "mul (Finite a) b = (if a = 0 then NaN else if 0 < a then b else negate b)"
| "mul a (Finite b) = (if b = 0 then NaN else if 0 < b then a else negate a)"
| "mul a b = (if a = b then PosInf else NegInf)"

text \<open>
  Division by a positive finite constant: the divisors of the scripts are \<open>1000\<close>,
  \<open>1000000\<close> and the default duration.
\<close>

fun divide :: "number \<Rightarrow> rat \<Rightarrow> number" where
  "divide (Finite a) d = round64 (a / d)"
| "divide a d = a"

text \<open>The comparisons \<open><\<close> and \<open>>=\<close>: both are false as soon as NaN takes part.\<close>

fun less :: "number \<Rightarrow> number \<Rightarrow> bool" where
  "less (Finite a) (Finite b) = (a < b)"
| "less (Finite a) PosInf = True"
| "less NegInf (Finite b) = True"
| "less NegInf PosInf = True"
| "less a b = False"

definition geq :: "number \<Rightarrow> number \<Rightarrow> bool" where
  "geq a b \<longleftrightarrow> a \<noteq> NaN \<and> b \<noteq> NaN \<and> \<not> less a b"

definition Math_min :: "number \<Rightarrow> number \<Rightarrow> number" where
  "Math_min a b = (if a = NaN \<or> b = NaN then NaN else if less b a then b else a)"

fun Math_floor :: "number \<Rightarrow> number" where
  "Math_floor (Finite a) = Finite (of_int \<lfloor>a\<rfloor>)"
| "Math_floor a = a"

section \<open>Printing numbers\<close>

definition isDigit :: "16 word \<Rightarrow> bool" where
  "isDigit c \<longleftrightarrow> 0x30 \<le> c \<and> c \<le> 0x39"

text \<open>The decimal digits of a non-negative integer.\<close>

function decDigits :: "int \<Rightarrow> jsstring \<Rightarrow> jsstring" where
  "decDigits n acc =
     (if n < 10 then (0x30 + of_int n) # acc
      else decDigits (n div 10) ((0x30 + of_int (n mod 10)) # acc))"
  by pat_completeness auto
termination
  by (relation "measure (\<lambda>(n, acc). nat n)") auto

declare decDigits.simps [simp del]

definition intDigits :: "int \<Rightarrow> jsstring" where
  "intDigits n = decDigits n []"

text \<open>For a positive \<open>x\<close>, the exponent \<open>n\<close> with \<open>10^(n-1) \<le> x < 10^n\<close>.\<close>

definition decExp :: "rat \<Rightarrow> int" where
  "decExp x =
     (let (p, q) = quotient_of x;
          d = int (length (intDigits p)) - int (length (intDigits q))
      in if 10 powi d \<le> x then d + 1 else d)"

text \<open>
  \<open>Number::toString\<close> prints the shortest decimal that reads back as the same Number.
  \<open>candidate x j\<close> looks among the multiples of \<open>10^j\<close> next to \<open>x\<close> for one that rounds
  to \<open>x\<close>, and takes the nearer one if both do (the even one on a tie);
  \<open>shortestFrom\<close> tries one digit, then two, and so on.  Seventeen digits always tell
  two binary64 values apart, so the search ends within its seventeen tries.
\<close>

definition candidate :: "rat \<Rightarrow> int \<Rightarrow> int option" where
  "candidate x j =
     (let unit = 10 powi j;
          lo = \<lfloor>x / unit\<rfloor>;
          hi = lo + 1;
          okLo = (fl (of_int lo * unit) = x);
          okHi = (fl (of_int hi * unit) = x);
          dLo = x - of_int lo * unit;
          dHi = of_int hi * unit - x
      in if okLo \<and> okHi
         then Some (if dLo < dHi then lo else if dHi < dLo then hi
                    else if even lo then lo else hi)
         else if okLo then Some lo
         else if okHi then Some hi
         else None)"

fun shortestFrom :: "rat \<Rightarrow> int \<Rightarrow> nat \<Rightarrow> int \<times> int" where
  "shortestFrom x j 0 = (\<lfloor>x / 10 powi j\<rfloor>, j)"
| "shortestFrom x j (Suc tries) =
     (case candidate x j of
        Some s \<Rightarrow> (s, j)
      | None \<Rightarrow> shortestFrom x (j - 1) tries)"

text \<open>
  The digit string \<open>digits\<close> with the decimal point after its first \<open>n\<close> places, in the
  four layouts of \<open>Number::toString\<close>: an integer padded with zeros, a fraction, a
  fraction below one, and the exponent form outside \<open>10^-7 .. 10^21\<close>.
\<close>

definition formatDecimal :: "jsstring \<Rightarrow> int \<Rightarrow> jsstring" where
  "formatDecimal digits n =
     (let k = int (length digits)
      in if k \<le> n \<and> n \<le> 21 then digits @ replicate (nat (n - k)) 0x30
         else if 0 < n \<and> n \<le> 21 then take (nat n) digits @ [0x2E] @ drop (nat n) digits
         else if - 6 < n \<and> n \<le> 0 then js ''0.'' @ replicate (nat (- n)) 0x30 @ digits
         else
           let e = n - 1;
               ex = [0x65, if e < 0 then 0x2D else 0x2B] @ intDigits \<bar>e\<bar>
           in if k = 1 then digits @ ex
              else take 1 digits @ [0x2E] @ drop 1 digits @ ex)"

definition positiveToString :: "rat \<Rightarrow> jsstring" where
  "positiveToString x =
     (let (s, j) = shortestFrom x (decExp x - 1) 17;
          all = intDigits s;
          digits = rev (dropWhile (\<lambda>d. d = 0x30) (rev all))
      in formatDecimal digits (int (length all) + j))"

fun numberToString :: "number \<Rightarrow> jsstring" where
  "numberToString NaN = js ''NaN''"
| "numberToString PosInf = js ''Infinity''"
| "numberToString NegInf = js ''-Infinity''"
| "numberToString (Finite x) =
     (if x = 0 then js ''0''
      else if x < 0 then 0x2D # positiveToString (- x)
      else positiveToString x)"

text \<open>
  \<open>Number.prototype.toFixed(2)\<close>.  Below \<open>10^21\<close> in magnitude: the sign, then the integer
  nearest to 100 times the magnitude (the larger one on a tie), padded to three digits,
  with a point before the last two.  From \<open>10^21\<close> on, and for a value that is not
  finite, the result is that of \<open>toString\<close>.
\<close>

fun toFixed2 :: "number \<Rightarrow> jsstring" where
  "toFixed2 (Finite x) =
     (let s = (if x < 0 then [0x2D] else []);
          a = \<bar>x\<bar>
      in if 10 ^ 21 \<le> a then s @ numberToString (Finite a)
         else
           let n = \<lfloor>a * 100 + 1 / 2\<rfloor>;
               m = intDigits n;
               padded = replicate (3 - length m) 0x30 @ m;
               k = length padded
           in s @ take (k - 2) padded @ [0x2E] @ drop (k - 2) padded)"
| "toFixed2 x = numberToString x"

declare toFixed2.simps [simp del]

section \<open>Statistics ticker\<close>

text \<open>The three numbers of \<open>GET /stats\<close>.\<close>

record StatsSnapshot =
  token_created :: number
  trading_volume :: number
  active_users :: number

definition zeroStats :: StatsSnapshot where
  "zeroStats = \<lparr>token_created = Finite 0, trading_volume = Finite 0, active_users = Finite 0\<rparr>"

definition isWordChar :: "16 word \<Rightarrow> bool" where
  "isWordChar c \<longleftrightarrow>
     isDigit c \<or> (0x41 \<le> c \<and> c \<le> 0x5A) \<or> (0x61 \<le> c \<and> c \<le> 0x7A) \<or> c = 0x5F"

text \<open>
  \<open>.replace(/\B(?=(\d{3})+(?!\d))/g, " ")\<close>: a space goes in at every position that is
  not a word boundary and is followed by a run of digits whose length is a positive
  multiple of three.  \<open>prev\<close> is whether the preceding character is a word character.
\<close>

fun groupThousands :: "bool \<Rightarrow> jsstring \<Rightarrow> jsstring" where
  "groupThousands prev [] = []"
| "groupThousands prev (c # cs) =
     (let n = length (takeWhile isDigit (c # cs))
      in if prev = isWordChar c \<and> 0 < n \<and> n mod 3 = 0
         then 0x20 # c # groupThousands (isWordChar c) cs
         else c # groupThousands (isWordChar c) cs)"

definition formatNumber :: "number \<Rightarrow> jsstring" where
  "formatNumber num = groupThousands False (numberToString num)"

text \<open>The variant with the currency sign in front.\<close>

definition formatVolume_usd :: "number \<Rightarrow> jsstring" where
  "formatVolume_usd volume =
     (if geq volume (Finite 1000000) then 0x24 # toFixed2 (divide volume 1000000) @ js ''M''
      else if geq volume (Finite 1000) then 0x24 # toFixed2 (divide volume 1000) @ js ''K''
      else 0x24 # toFixed2 volume)"

text \<open>The variant with the unit behind.\<close>

definition formatVolume :: "number \<Rightarrow> jsstring" where
  "formatVolume volume =
     (if geq volume (Finite 1000000) then toFixed2 (divide volume 1000000) @ js ''M BNB''
      else if geq volume (Finite 1000) then toFixed2 (divide volume 1000) @ js ''K BNB''
      else toFixed2 volume @ js '' BNB'')"

text \<open>
  \<open>parseInt\<close> without a radix, as the integer it reads; \<open>None\<close> is NaN.  (Beyond twenty
  significant digits an implementation may read the further digits as zeros; here
  every digit counts.)
\<close>

definition digitValue :: "nat \<Rightarrow> 16 word \<Rightarrow> nat option" where
  "digitValue radix c =
     (let v = (if 0x30 \<le> c \<and> c \<le> 0x39 then Some (unat c - 0x30)
               else if 0x61 \<le> c \<and> c \<le> 0x7A then Some (unat c - 0x61 + 10)
               else if 0x41 \<le> c \<and> c \<le> 0x5A then Some (unat c - 0x41 + 10)
               else None)
      in case v of None \<Rightarrow> None | Some d \<Rightarrow> if d < radix then Some d else None)"

definition parseInt :: "jsstring \<Rightarrow> int option" where
  "parseInt str =
     (let s1 = dropWhile isWhiteSpace str;
          neg = (take 1 s1 = [0x2D]);
          s2 = (if take 1 s1 = [0x2D] \<or> take 1 s1 = [0x2B] then drop 1 s1 else s1);
          hex = (take 2 s2 = [0x30, 0x78] \<or> take 2 s2 = [0x30, 0x58]);
          radix = (if hex then 16 else 10);
          s3 = (if hex then drop 2 s2 else s2);
          z = takeWhile (\<lambda>c. digitValue radix c \<noteq> None) s3;
          v = foldl (\<lambda>acc c. acc * radix + the (digitValue radix c)) 0 z
      in if z = [] then None else Some (if neg then - int v else int v))"

text \<open>
  \<open>parseInt(element.textContent.replace(/\s/g, '')) || 0\<close>: the integer read is rounded
  to a Number; NaN and zero give zero.
\<close>

definition startValueOf :: "jsstring \<Rightarrow> number" where
  "startValueOf shown =
     (case parseInt (filter (\<lambda>c. \<not> isWhiteSpace c) shown) of
        None \<Rightarrow> Finite 0
      | Some v \<Rightarrow> round64 (of_int v))"

text \<open>
  \<open>animateNumber\<close>: \<open>update\<close> runs once at once and then once per animation frame until
  \<open>progress\<close> reaches 1.  Every call leaves \<open>duration\<close> at its default.  The clock is an
  input: \<open>elapsed\<close> is \<open>Date.now() - startTime\<close> at the run at hand, an integer number of
  milliseconds, \<open>later\<close> the readings at the frames that have run after it.  The result
  is the text the element shows after those runs.
\<close>

definition duration :: rat where
  "duration = 1000"

definition progressAt :: "int \<Rightarrow> number" where
  "progressAt elapsed = Math_min (divide (round64 (of_int elapsed)) duration) (Finite 1)"

definition currentValueAt :: "number \<Rightarrow> number \<Rightarrow> int \<Rightarrow> number" where
  "currentValueAt startValue targetValue elapsed =
     (let progress = progressAt elapsed;
          easeOutQuad = mul progress (sub (Finite 2) progress)
      in Math_floor (add startValue (mul (sub targetValue startValue) easeOutQuad)))"

definition frameText :: "number \<Rightarrow> number \<Rightarrow> int \<Rightarrow> jsstring" where
  "frameText startValue targetValue elapsed =
     formatNumber (currentValueAt startValue targetValue elapsed)"

fun update :: "number \<Rightarrow> number \<Rightarrow> int \<Rightarrow> int list \<Rightarrow> jsstring" where
  "update startValue targetValue elapsed [] = frameText startValue targetValue elapsed"
| "update startValue targetValue elapsed (e # later) =
     (if less (progressAt elapsed) (Finite 1)
      then update startValue targetValue e later
      else frameText startValue targetValue elapsed)"

type_synonym frames = "int \<times> int list"

definition animateNumber :: "jsstring \<Rightarrow> number \<Rightarrow> frames \<Rightarrow> jsstring" where
  "animateNumber shown targetValue fr =
     update (startValueOf shown) targetValue (fst fr) (snd fr)"

text \<open>
  \<open>updateStatsDisplay\<close>, with the volume formatter of the script variant and the clock
  readings of the two animations as parameters.
\<close>

definition updateStatsDisplay ::
    "(number \<Rightarrow> jsstring) \<Rightarrow> StatsSnapshot \<Rightarrow> frames \<Rightarrow> frames \<Rightarrow> page \<Rightarrow> page" where
  "updateStatsDisplay fmt stats fr0 fr2 s =
     (let items = counterItems s
      in if length items \<ge> 3
         then
           let i0 = (items ! 0)
                 \<lparr>span_text := map_option (\<lambda>t. animateNumber t (token_created stats) fr0)
                                (span_text (items ! 0)),
                  label_text := map_option (\<lambda>_. js ''Token created'') (label_text (items ! 0))\<rparr>;
               i1 = (items ! 1)
                 \<lparr>span_text := map_option (\<lambda>_. fmt (trading_volume stats))
                                (span_text (items ! 1)),
                  label_text := map_option (\<lambda>_. js ''Trading volume'') (label_text (items ! 1))\<rparr>;
               i2 = (items ! 2)
                 \<lparr>span_text := map_option (\<lambda>t. animateNumber t (active_users stats) fr2)
                                (span_text (items ! 2)),
                  label_text := map_option (\<lambda>_. js ''Active users'') (label_text (items ! 2))\<rparr>
           in s\<lparr>counterItems := items[0 := i0, 1 := i1, 2 := i2]\<rparr>
         else s)"

text \<open>\<open>fetchStats\<close> up to its \<open>await fetch\<close>, and its continuation.\<close>

definition fetchStats_start :: "page \<Rightarrow> page" where
  "fetchStats_start s = s\<lparr>effects := effects s @ [Fetch GetStats]\<rparr>"

definition fetchStats_resume ::
    "(number \<Rightarrow> jsstring) \<Rightarrow> StatsSnapshot fetch_result \<Rightarrow> frames \<Rightarrow> frames \<Rightarrow> page \<Rightarrow> page" where
  "fetchStats_resume fmt r fr0 fr2 s =
     (case received r of
        Some d \<Rightarrow> updateStatsDisplay fmt d fr0 fr2 s
      | None \<Rightarrow> updateStatsDisplay fmt zeroStats fr0 fr2 s)"

text \<open>
  The timer table of the browser: \<open>timers\<close> are the identifiers of the repeating timers
  that are active, \<open>nextTimerId\<close> the next identifier it hands out.  The only callback
  ever registered with \<open>setInterval\<close> is the one that calls \<open>fetchStats\<close>.
\<close>

definition clearInterval :: "nat \<Rightarrow> page \<Rightarrow> page" where
  "clearInterval t s = s\<lparr>timers := removeAll t (timers s)\<rparr>"

definition setInterval :: "page \<Rightarrow> nat \<times> page" where
  "setInterval s =
     (nextTimerId s, s\<lparr>timers := timers s @ [nextTimerId s], nextTimerId := Suc (nextTimerId s)\<rparr>)"

text \<open>\<open>if (statsUpdateTimer) clearInterval(statsUpdateTimer)\<close>: null and 0 are falsy.\<close>

definition clearStatsTimer :: "page \<Rightarrow> page" where
  "clearStatsTimer s =
     (case statsUpdateTimer s of
        None \<Rightarrow> s
      | Some t \<Rightarrow> if t \<noteq> 0 then clearInterval t s else s)"

definition initializeStats :: "page \<Rightarrow> page" where
  "initializeStats s =
     (let s1 = fetchStats_start s;
          s2 = clearStatsTimer s1;
          (t, s3) = setInterval s2
      in s3\<lparr>statsUpdateTimer := Some t\<rparr>)"

text \<open>The interval elapses once: every active timer runs its callback.\<close>

definition intervalElapsed :: "page \<Rightarrow> page" where
  "intervalElapsed s = foldl (\<lambda>s' t. fetchStats_start s') s (timers s)"

definition statsFetches :: "page \<Rightarrow> nat" where
  "statsFetches s = length (filter (\<lambda>e. e = Fetch GetStats) (effects s))"

text \<open>
  What the script and the browser keep between them: a timer is active only if the
  script holds its identifier, identifiers are positive and those handed out lie below
  the next one.
\<close>

definition timerState :: "page \<Rightarrow> bool" where
  "timerState s \<longleftrightarrow>
     0 < nextTimerId s \<and> distinct (timers s) \<and>
     (\<forall>t \<in> set (timers s). 0 < t \<and> t < nextTimerId s \<and> statsUpdateTimer s = Some t)"

text \<open>The animation has come to its last frame: some run of \<open>update\<close> saw the full duration.\<close>

definition finished :: "frames \<Rightarrow> bool" where
  "finished fr \<longleftrightarrow> (\<exists>e \<in> set (fst fr # snd fr). 1000 \<le> e)"



text \<open>No counter slot shows a text of more than 255 characters.\<close>

definition shortTexts :: "page \<Rightarrow> bool" where
  "shortTexts s \<longleftrightarrow>
     (\<forall>item \<in> set (counterItems s).
        case span_text item of None \<Rightarrow> True | Some t \<Rightarrow> length t \<le> 255)"

text \<open>A page right after loading, before anything was typed.\<close>

definition freshPage :: page where
  "freshPage =
     \<lparr>inputValue = [], currentChatType = Website,
      chatHistory = \<lparr>design = [], website = []\<rparr>,
      chat = [], websiteActive = False, designActive = False,
      logos = [], imgs = [], websitePanel = [], counterItems = [],
      statsUpdateTimer = None, timers = [], nextTimerId = 1, effects = []\<rparr>"

text \<open>A page whose website panel still shows two earlier pictures.\<close>

definition stalePage :: page where
  "stalePage =
     freshPage\<lparr>websitePanel :=
       [Img (js ''old1'') (js ''Generated Website''), Img (js ''old2'') (js ''Generated Website'')]\<rparr>"

text \<open>A page whose ticker shows 1 234 tokens, a volume of 5.00K and 77 users.\<close>

definition tickerPage :: page where
  "tickerPage =
     freshPage\<lparr>counterItems :=
       [\<lparr>span_text = Some (js ''1 234''), label_text = Some (js ''Token created'')\<rparr>,
        \<lparr>span_text = Some (js ''$5.00K''), label_text = Some (js ''Trading volume'')\<rparr>,
        \<lparr>span_text = Some (js ''77''), label_text = Some (js ''Active users'')\<rparr>]\<rparr>"


section \<open>Empty submissions\<close>

text \<open>
  C2.  When the input field holds the empty string or only white space, an invocation of
  \<open>sendMessage\<close> returns the page as it was: transcript, history, input field and the
  record of effects (so no transcript mutation and no network request) are all unchanged,
  whatever the backend would have answered.
\<close>

theorem sendMessage_blank_noop:
  assumes "trim (inputValue s) = []"
  shows "sendMessage r s = s"
  using assms by (simp add: sendMessage_def sendMessage_start_def)

theorem sendMessage_blank_noop_witness:
  "trim (inputValue (freshPage\<lparr>inputValue := js ''  ''\<rparr>)) = []
   \<and> sendMessage NetworkError (freshPage\<lparr>inputValue := js ''  ''\<rparr>)
       = freshPage\<lparr>inputValue := js ''  ''\<rparr>"
proof -
  have blank: "trim (inputValue (freshPage\<lparr>inputValue := js ''  ''\<rparr>)) = []"
    by (simp add: trim_def js_def isWhiteSpace_def)
  from sendMessage_blank_noop [OF blank] blank show ?thesis by simp
qed

section \<open>Transcript bookkeeping\<close>

lemma removeFirstLoading_keeps_others:
  "filter (\<lambda>m. \<not> loading m) (removeFirstLoading ms) = filter (\<lambda>m. \<not> loading m) ms"
  by (induction ms) simp_all

lemma removeFirstLoading_drops_one:
  "\<exists>m \<in> set ms. loading m \<Longrightarrow>
     Suc (length (filter loading (removeFirstLoading ms))) = length (filter loading ms)"
  by (induction ms) auto

lemma removeFirstLoading_none:
  "find loading ms = None \<Longrightarrow> removeFirstLoading ms = ms"
  by (induction ms) (auto split: if_splits)

lemma chat_removeLoadingMessage [simp]:
  "chat (removeLoadingMessage s) = removeFirstLoading (chat s)"
  by (simp add: removeLoadingMessage_def removeFirstLoading_none split: option.splits)

lemma removeLoadingMessage_frame [simp]:
  "currentChatType (removeLoadingMessage s) = currentChatType s"
  "chatHistory (removeLoadingMessage s) = chatHistory s"
  "inputValue (removeLoadingMessage s) = inputValue s"
  by (simp_all add: removeLoadingMessage_def split: option.splits)

lemma displayImages_frame [simp]:
  "chat (displayImages is ty s) = chat s"
  "chatHistory (displayImages is ty s) = chatHistory s"
  "currentChatType (displayImages is ty s) = currentChatType s"
  "inputValue (displayImages is ty s) = inputValue s"
  "effects (displayImages is ty s) = effects s"
  by (simp_all add: displayImages_def displayDesignImages_def displayWebsiteImage_def
        split: prod.splits)

lemma addMessageToChat_simps [simp]:
  "chat (addMessageToChat msg a l s) = chat s @ [\<lparr>author = a, loading = l, textContent = msg\<rparr>]"
  "chatHistory (addMessageToChat msg a l s) = chatHistory s"
  "currentChatType (addMessageToChat msg a l s) = currentChatType s"
  "inputValue (addMessageToChat msg a l s) = inputValue s"
  "effects (addMessageToChat msg a l s)
     = effects s @ [ChatAppend \<lparr>author = a, loading = l, textContent = msg\<rparr>]"
  by (simp_all add: addMessageToChat_def Let_def)

lemma sendMessage_start_nonblank:
  assumes "trim (inputValue s) \<noteq> []"
  shows "sendMessage_start s =
     (s\<lparr>chat := chat s @ [\<lparr>author = User, loading = False, textContent = trim (inputValue s)\<rparr>,
                           \<lparr>author = Ai, loading = True,
                              textContent = loadingMsg (currentChatType s)\<rparr>],
         inputValue := [],
         effects := effects s @
           [ChatAppend \<lparr>author = User, loading = False, textContent = trim (inputValue s)\<rparr>,
            InputSet [],
            ChatAppend \<lparr>author = Ai, loading = True, textContent = loadingMsg (currentChatType s)\<rparr>,
            Fetch (GenerateImages (trim (inputValue s)) (currentChatType s))]\<rparr>,
      Some (trim (inputValue s)))"
  using assms by (simp add: sendMessage_start_def addMessageToChat_def Let_def)

lemma removeFirstLoading_placeholder:
  assumes "\<forall>m \<in> set ms. \<not> loading m" and "\<not> loading u" and "loading l"
  shows "removeFirstLoading (ms @ [u, l]) = ms @ [u]"
  using assms by (induction ms) simp_all

lemma removeFirstLoading_settled:
  "\<forall>m \<in> set ms. \<not> loading m \<Longrightarrow> removeFirstLoading ms = ms"
  by (induction ms) simp_all

lemma callDisplayImages_Some [simp]:
  "callDisplayImages (Some xs) ty s = Returned (displayImages xs ty s)"
  by (simp add: callDisplayImages_def)

lemma callDisplayImages_frame [simp]:
  "chat (pageOf (callDisplayImages imgsIn ty s)) = chat s"
  "chatHistory (pageOf (callDisplayImages imgsIn ty s)) = chatHistory s"
  "currentChatType (pageOf (callDisplayImages imgsIn ty s)) = currentChatType s"
  "inputValue (pageOf (callDisplayImages imgsIn ty s)) = inputValue s"
  "effects (pageOf (callDisplayImages imgsIn ty s)) = effects s"
  by (simp_all add: callDisplayImages_def displayImages_undefined_def split: option.splits)

lemma successCaption_Some [simp]:
  "successCaption ty (Some xs) = Some (successMsg ty xs)"
  by (cases ty) (simp_all add: successCaption_def successMsg_def)

lemma sendMessage_catch_simps [simp]:
  "chat (sendMessage_catch s)
     = removeFirstLoading (chat s) @ [\<lparr>author = Ai, loading = False, textContent = failureMsg\<rparr>]"
  "chatHistory (sendMessage_catch s) = chatHistory s"
  "currentChatType (sendMessage_catch s) = currentChatType s"
  "inputValue (sendMessage_catch s) = inputValue s"
  by (simp_all add: sendMessage_catch_def)

text \<open>The continuation on an answer that carries images, and on one that failed.\<close>

lemma sendMessage_resume_images:
  assumes "received r = Some d" and "data_images d = Some xs"
  shows "chat (sendMessage_resume um r s)
           = removeFirstLoading (chat s)
               @ [\<lparr>author = Ai, loading = False,
                    textContent = successMsg (currentChatType s) xs\<rparr>]"
    and "chatHistory (sendMessage_resume um r s)
           = history_push (currentChatType s) \<lparr>userMessage = um, images = Some xs\<rparr>
               (chatHistory s)"
    and "currentChatType (sendMessage_resume um r s) = currentChatType s"
  using assms by (simp_all add: sendMessage_resume_def Let_def)

lemma sendMessage_resume_failed:
  assumes "received r = None"
  shows "sendMessage_resume um r s = sendMessage_catch s"
  using assms by (simp add: sendMessage_resume_def)

lemma currentChatType_sendMessage_resume [simp]:
  "currentChatType (sendMessage_resume um r s) = currentChatType s"
proof (cases "received r")
  case None
  then show ?thesis
    by (simp add: sendMessage_resume_failed)
next
  case (Some d)
  let ?s1 = "removeLoadingMessage s"
  show ?thesis
  proof (cases "successCaption (currentChatType ?s1) (data_images d)")
    case None
    with Some show ?thesis
      by (simp add: sendMessage_resume_def Let_def)
  next
    case (Some caption)
    let ?call = "callDisplayImages (data_images d) (data_type d)
                   (addMessageToChat caption Ai False ?s1)"
    have "currentChatType (pageOf ?call) = currentChatType s"
      by simp
    with \<open>received r = Some d\<close> Some show ?thesis
      by (cases ?call) (simp_all add: sendMessage_resume_def Let_def)
  qed
qed

lemma inputValue_sendMessage_resume [simp]:
  "inputValue (sendMessage_resume um r s) = inputValue s"
proof (cases "received r")
  case None
  then show ?thesis
    by (simp add: sendMessage_resume_failed)
next
  case (Some d)
  let ?s1 = "removeLoadingMessage s"
  show ?thesis
  proof (cases "successCaption (currentChatType ?s1) (data_images d)")
    case None
    with Some show ?thesis
      by (simp add: sendMessage_resume_def Let_def)
  next
    case (Some caption)
    let ?call = "callDisplayImages (data_images d) (data_type d)
                   (addMessageToChat caption Ai False ?s1)"
    have "inputValue (pageOf ?call) = inputValue s"
      by simp
    with \<open>received r = Some d\<close> Some show ?thesis
      by (cases ?call) (simp_all add: sendMessage_resume_def Let_def)
  qed
qed

lemma effects_removeLoadingMessage:
  "\<exists>rest. effects (removeLoadingMessage s) = effects s @ rest"
  by (simp add: removeLoadingMessage_def split: option.splits)

lemma effects_sendMessage_catch:
  "\<exists>rest. effects (sendMessage_catch s) = effects s @ rest"
  using effects_removeLoadingMessage [of s] by (auto simp: sendMessage_catch_def)

lemma effects_sendMessage_resume:
  "\<exists>rest. effects (sendMessage_resume um r s) = effects s @ rest"
proof (cases "received r")
  case None
  then show ?thesis
    by (simp add: sendMessage_resume_failed effects_sendMessage_catch)
next
  case (Some d)
  let ?s1 = "removeLoadingMessage s"
  from effects_removeLoadingMessage [of s] obtain r1 where r1: "effects ?s1 = effects s @ r1"
    by blast
  show ?thesis
  proof (cases "successCaption (currentChatType ?s1) (data_images d)")
    case None
    from effects_sendMessage_catch [of ?s1] r1
    have "\<exists>rest. effects (sendMessage_catch ?s1) = effects s @ rest"
      by auto
    with \<open>received r = Some d\<close> None show ?thesis
      by (simp add: sendMessage_resume_def Let_def)
  next
    case (Some caption)
    let ?s2 = "addMessageToChat caption Ai False ?s1"
    let ?call = "callDisplayImages (data_images d) (data_type d) ?s2"
    have e2: "effects (pageOf ?call)
        = effects s @ (r1 @ [ChatAppend \<lparr>author = Ai, loading = False, textContent = caption\<rparr>])"
      by (simp add: r1)
    show ?thesis
    proof (cases ?call)
      case (Returned s3)
      with e2 have "effects s3
          = effects s @ (r1 @ [ChatAppend \<lparr>author = Ai, loading = False, textContent = caption\<rparr>])"
        by simp
      with \<open>received r = Some d\<close> Some Returned show ?thesis
        by (simp add: sendMessage_resume_def Let_def)
    next
      case (Threw s3)
      with e2 have e3: "effects s3
          = effects s @ (r1 @ [ChatAppend \<lparr>author = Ai, loading = False, textContent = caption\<rparr>])"
        by simp
      from effects_sendMessage_catch [of s3] obtain r3
        where "effects (sendMessage_catch s3) = effects s3 @ r3"
        by blast
      with e3 have "\<exists>rest. effects (sendMessage_catch s3) = effects s @ rest"
        by simp
      with \<open>received r = Some d\<close> Some Threw show ?thesis
        by (simp add: sendMessage_resume_def Let_def)
    qed
  qed
qed

text \<open>
  One whole invocation on a page without a placeholder left over.  The answer is taken
  apart by its status and its body, not by \<open>received\<close>.
\<close>

lemma sendMessage_success_turn:
  assumes "trim (inputValue s) \<noteq> []" and "\<forall>m \<in> set (chat s). \<not> loading m"
    and "200 \<le> status" and "status \<le> 299" and "data_images d = Some xs"
  shows "chat (sendMessage (Response status (Some d)) s)
           = chat s @ [\<lparr>author = User, loading = False, textContent = trim (inputValue s)\<rparr>,
                       \<lparr>author = Ai, loading = False,
                          textContent = successMsg (currentChatType s) xs\<rparr>]
     \<and> chatHistory (sendMessage (Response status (Some d)) s)
           = history_push (currentChatType s)
               \<lparr>userMessage = trim (inputValue s), images = Some xs\<rparr> (chatHistory s)"
proof -
  from assms(3,4) have rec: "received (Response status (Some d)) = Some d"
    by (simp add: response_ok_def)
  show ?thesis
    using assms(2)
    by (simp add: sendMessage_def sendMessage_start_nonblank [OF assms(1)]
          sendMessage_resume_images [OF rec assms(5)] removeFirstLoading_placeholder)
qed

lemma sendMessage_failure_turn:
  assumes "trim (inputValue s) \<noteq> []" and "\<forall>m \<in> set (chat s). \<not> loading m"
    and "r = NetworkError
         \<or> (\<exists>status body. r = Response status body
               \<and> (status < 200 \<or> 299 < status \<or> body = None))"
  shows "chat (sendMessage r s)
           = chat s @ [\<lparr>author = User, loading = False, textContent = trim (inputValue s)\<rparr>,
                       \<lparr>author = Ai, loading = False, textContent = failureMsg\<rparr>]
     \<and> chatHistory (sendMessage r s) = chatHistory s"
proof -
  from assms(3) have rec: "received r = None"
    by (auto simp: response_ok_def)
  show ?thesis
    using assms(2)
    by (simp add: sendMessage_def sendMessage_start_nonblank [OF assms(1)]
          sendMessage_resume_failed [OF rec] removeFirstLoading_placeholder)
qed

section \<open>One submission, one turn\<close>

text \<open>
  C1.  On the website tab, with \<open>hi\<close> in the input field, an answer with status 200
  whose JSON object has a \<open>type\<close> but no \<open>images\<close> leaves three entries behind: the user
  entry, the success caption, and the failure caption as well, because the rendering
  that follows the success caption throws and the \<open>catch\<close> runs.  The history is
  unchanged.  On the design tab the same answer leaves the user entry and the failure
  caption only, since there the caption itself reads \<open>images.length\<close> and throws before
  anything is appended.
\<close>

theorem sendMessage_two_captions:
  "chat (sendMessage
          (Response 200 (Some \<lparr>data_images = None, data_type = js ''website''\<rparr>))
          (freshPage\<lparr>inputValue := js ''hi''\<rparr>))
     = [\<lparr>author = User, loading = False, textContent = js ''hi''\<rparr>,
        \<lparr>author = Ai, loading = False, textContent = successMsg Website []\<rparr>,
        \<lparr>author = Ai, loading = False, textContent = failureMsg\<rparr>]
   \<and> chatHistory (sendMessage
          (Response 200 (Some \<lparr>data_images = None, data_type = js ''website''\<rparr>))
          (freshPage\<lparr>inputValue := js ''hi''\<rparr>))
     = \<lparr>design = [], website = []\<rparr>
   \<and> chat (sendMessage
          (Response 200 (Some \<lparr>data_images = None, data_type = js ''website''\<rparr>))
          (freshPage\<lparr>inputValue := js ''hi'', currentChatType := Design\<rparr>))
     = [\<lparr>author = User, loading = False, textContent = js ''hi''\<rparr>,
        \<lparr>author = Ai, loading = False, textContent = failureMsg\<rparr>]"
proof -
  have t: "trim (js ''hi'') = js ''hi''"
    by (simp add: trim_def js_def isWhiteSpace_def)
  have nonblank: "js ''hi'' \<noteq> []"
    by (simp add: js_def)
  have web: "js ''website'' \<noteq> js ''design''"
    by (simp add: js_def)
  have ok: "response_ok 200"
    by (simp add: response_ok_def)
  show ?thesis
    using nonblank web ok
    by (simp add: sendMessage_def sendMessage_start_def sendMessage_resume_def t Let_def
          successCaption_def callDisplayImages_def displayImages_undefined_def freshPage_def)
qed

section \<open>The input field\<close>

text \<open>
  C9.  When the trimmed input is not empty, the effects of \<open>sendMessage\<close> up to its
  suspension are, in this order: the user entry is appended, the input field is set to
  the empty string, the loading placeholder is appended, the request is issued; whatever
  follows comes after these, and the field is empty at the suspension and at the end.
  When the input is empty or only white space, the field keeps its value and nothing is
  done.
\<close>

theorem sendMessage_clears_input:
  "(trim (inputValue s) \<noteq> [] \<longrightarrow>
      effects (fst (sendMessage_start s)) =
        effects s @
          [ChatAppend \<lparr>author = User, loading = False, textContent = trim (inputValue s)\<rparr>,
           InputSet [],
           ChatAppend \<lparr>author = Ai, loading = True, textContent = loadingMsg (currentChatType s)\<rparr>,
           Fetch (GenerateImages (trim (inputValue s)) (currentChatType s))]
      \<and> inputValue (fst (sendMessage_start s)) = []
      \<and> (\<exists>rest. effects (sendMessage r s) = effects (fst (sendMessage_start s)) @ rest)
      \<and> inputValue (sendMessage r s) = [])
   \<and> (trim (inputValue s) = [] \<longrightarrow>
        inputValue (sendMessage r s) = inputValue s \<and> effects (sendMessage r s) = effects s)"
proof (cases "trim (inputValue s) = []")
  case True
  then show ?thesis
    by (simp add: sendMessage_def sendMessage_start_def)
next
  case False
  have "\<exists>rest. effects (sendMessage r s) = effects (fst (sendMessage_start s)) @ rest"
    using effects_sendMessage_resume [of "trim (inputValue s)" r "fst (sendMessage_start s)"] False
    by (simp add: sendMessage_def sendMessage_start_nonblank)
  with False show ?thesis
    by (simp add: sendMessage_def sendMessage_start_nonblank)
qed

theorem sendMessage_clears_input_witness:
  "trim (inputValue (freshPage\<lparr>inputValue := js ''logo ''\<rparr>)) \<noteq> []
   \<and> inputValue (sendMessage NetworkError (freshPage\<lparr>inputValue := js ''logo ''\<rparr>)) = []
   \<and> effects (fst (sendMessage_start (freshPage\<lparr>inputValue := js ''logo ''\<rparr>))) =
        [ChatAppend \<lparr>author = User, loading = False, textContent = js ''logo''\<rparr>,
         InputSet [],
         ChatAppend \<lparr>author = Ai, loading = True, textContent = loadingMsg Website\<rparr>,
         Fetch (GenerateImages (js ''logo'') Website)]
   \<and> trim (inputValue (freshPage\<lparr>inputValue := js '' ''\<rparr>)) = []
   \<and> inputValue (sendMessage NetworkError (freshPage\<lparr>inputValue := js '' ''\<rparr>)) = js '' ''"
proof -
  have t: "trim (js ''logo '') = js ''logo''"
    by (simp add: trim_def js_def isWhiteSpace_def)
  have h: "trim (inputValue (freshPage\<lparr>inputValue := js ''logo ''\<rparr>)) \<noteq> []"
    by (simp add: t) (simp add: js_def)
  have b: "trim (inputValue (freshPage\<lparr>inputValue := js '' ''\<rparr>)) = []"
    by (simp add: trim_def js_def isWhiteSpace_def)
  have fields: "effects (freshPage\<lparr>inputValue := js ''logo ''\<rparr>) = []"
    "currentChatType (freshPage\<lparr>inputValue := js ''logo ''\<rparr>) = Website"
    by (simp_all add: freshPage_def)
  from sendMessage_clears_input [of "freshPage\<lparr>inputValue := js ''logo ''\<rparr>" NetworkError]
    sendMessage_clears_input [of "freshPage\<lparr>inputValue := js '' ''\<rparr>" NetworkError]
  show ?thesis
    using h b by (simp add: t fields)
qed

section \<open>Image panels\<close>



text \<open>
  C7, as amended.  Rendering a non-empty sequence with type \<open>website\<close> leaves in the
  website panel exactly one image, the first of the sequence, whatever the panel held
  before and whatever follows the first image.
\<close>

theorem displayImages_website_first:
  assumes "is \<noteq> []"
  shows "websitePanel (displayImages is (js ''website'') s)
           = [Img (img_url (hd is)) (js ''Generated Website'')]"
proof -
  have "js ''website'' \<noteq> js ''design''"
    by (simp add: js_def)
  with assms show ?thesis
    by (simp add: displayImages_def displayWebsiteImage_def hd_conv_nth)
qed

theorem displayImages_website_first_witness:
  "[\<lparr>img_type = js ''website'', img_url = js ''a''\<rparr>,
    \<lparr>img_type = js ''website'', img_url = js ''b''\<rparr>] \<noteq> []
   \<and> websitePanel (displayImages
        [\<lparr>img_type = js ''website'', img_url = js ''a''\<rparr>,
         \<lparr>img_type = js ''website'', img_url = js ''b''\<rparr>] (js ''website'') stalePage)
       = [Img (js ''a'') (js ''Generated Website'')]"
  using displayImages_website_first
    [of "[\<lparr>img_type = js ''website'', img_url = js ''a''\<rparr>,
          \<lparr>img_type = js ''website'', img_url = js ''b''\<rparr>]" stalePage]
  by simp

text \<open>
  C7 as stated fails for the empty sequence: a panel showing two earlier pictures still
  shows both after rendering the empty sequence with type \<open>website\<close>.
\<close>

theorem displayImages_website_empty_counterexample:
  "websitePanel (displayImages [] (js ''website'') stalePage)
     = [Img (js ''old1'') (js ''Generated Website''), Img (js ''old2'') (js ''Generated Website'')]"
  by (simp add: displayImages_def displayWebsiteImage_def stalePage_def freshPage_def js_def)

text \<open>
  C10.  Rendering the empty sequence with type \<open>website\<close> changes nothing on the page;
  in particular the website panel is neither cleared nor given an image.
\<close>

theorem displayImages_website_empty:
  "displayImages [] (js ''website'') s = s"
  by (simp add: displayImages_def displayWebsiteImage_def) (simp add: js_def)

section \<open>Replaying the history\<close>
















lemma lastShown_None:
  "lastShown ty (s # later) = None \<longleftrightarrow> currentChatType s \<noteq> ty \<and> lastShown ty later = None"
  by (simp split: option.splits)








section \<open>Rounding to binary64\<close>

lemma bits_nonneg: "0 \<le> bits n"
proof (induction n rule: bits.induct)
  case (1 n)
  then show ?case
    by (subst bits.simps) simp
qed

lemma bits_pos: "0 < n \<Longrightarrow> 1 \<le> bits n"
  using bits_nonneg [of "n div 2"] by (subst bits.simps) simp

lemma bits_bounds:
  "0 < n \<Longrightarrow> 2 ^ nat (bits n - 1) \<le> n \<and> n < 2 ^ nat (bits n)"
proof (induction n rule: bits.induct)
  case (1 n)
  show ?case
  proof (cases "n = 1")
    case True
    have "bits 1 = 1"
      by (simp add: bits.simps [of 1] bits.simps [of 0])
    with True show ?thesis by simp
  next
    case False
    with "1.prems" have half: "0 < n div 2"
      by simp
    from "1.prems" have "\<not> n \<le> 0" by simp
    from "1.IH" [OF this half] have ih: "2 ^ nat (bits (n div 2) - 1) \<le> n div 2"
      "n div 2 < 2 ^ nat (bits (n div 2))"
      by simp_all
    have b: "bits n = 1 + bits (n div 2)"
      using "1.prems" by (subst bits.simps) simp
    from bits_pos [OF half] have s: "nat (bits (n div 2)) = Suc (nat (bits (n div 2) - 1))"
      by simp
    define k where "k = nat (bits (n div 2) - 1)"
    from ih s have lo: "2 ^ k \<le> n div 2" and hi: "n div 2 < 2 * 2 ^ k"
      by (simp_all add: k_def)
    from lo have "2 * 2 ^ k \<le> n"
      by linarith
    moreover from hi have "n < 2 * (2 * 2 ^ k)"
      by linarith
    moreover from b s have "nat (bits n - 1) = Suc k" "nat (bits n) = Suc (Suc k)"
      using bits_pos [OF half] unfolding k_def by arith+
    ultimately show ?thesis
      by simp
  qed
qed

lemma bits_powi:
  assumes "0 < n"
  shows "(2 :: rat) powi (bits n - 1) \<le> of_int n" and "of_int n < (2 :: rat) powi (bits n)"
proof -
  from bits_pos [OF assms] have nn: "0 \<le> bits n - 1" "0 \<le> bits n"
    by simp_all
  from bits_bounds [OF assms] have "(of_int (2 ^ nat (bits n - 1)) :: rat) \<le> of_int n"
    "(of_int n :: rat) < of_int (2 ^ nat (bits n))"
    by (simp_all only: of_int_le_iff of_int_less_iff)
  then show "(2 :: rat) powi (bits n - 1) \<le> of_int n" "of_int n < (2 :: rat) powi (bits n)"
    using nn by (simp_all add: power_int_def)
qed

lemma ilog2_bounds:
  assumes "0 < x"
  shows "2 powi (ilog2 x) \<le> x \<and> x < 2 powi (ilog2 x + 1)"
proof -
  obtain p q where pq: "quotient_of x = (p, q)"
    by (cases "quotient_of x")
  then have x: "x = of_int p / of_int q" and q: "0 < q"
    by (simp_all add: quotient_of_div quotient_of_denom_pos)
  with assms have p: "0 < p"
    by (simp add: zero_less_divide_iff)
  define d where "d = bits p - bits q"
  have qpos: "(0 :: rat) < of_int q"
    using q by simp
  have two: "(0 :: rat) < 2 powi k" for k
    by (simp add: zero_less_power_int)
  have upper: "x < 2 powi (d + 1)"
  proof -
    have "of_int p < (2 :: rat) powi (bits p)"
      by (rule bits_powi [OF p])
    also have "\<dots> = 2 powi (d + 1) * 2 powi (bits q - 1)"
      by (simp add: d_def power_int_add [symmetric])
    also have "\<dots> \<le> 2 powi (d + 1) * of_int q"
      using bits_powi(1) [OF q] two [of "d + 1"] by (simp add: mult_le_cancel_left_pos)
    finally show ?thesis
      using qpos by (simp add: x pos_divide_less_eq)
  qed
  have lower: "2 powi (d - 1) \<le> x"
  proof -
    have "2 powi (d - 1) * of_int q \<le> 2 powi (d - 1) * (2 :: rat) powi (bits q)"
      using bits_powi(2) [OF q] two [of "d - 1"] by (simp add: mult_le_cancel_left_pos)
    also have "\<dots> = 2 powi (bits p - 1)"
      by (simp add: d_def power_int_add [symmetric])
    also have "\<dots> \<le> of_int p"
      by (rule bits_powi [OF p])
    finally show ?thesis
      using qpos by (simp add: x pos_le_divide_eq)
  qed
  show ?thesis
  proof (cases "2 powi d \<le> x")
    case True
    with upper pq show ?thesis
      by (simp add: ilog2_def d_def)
  next
    case False
    with lower pq show ?thesis
      by (simp add: ilog2_def d_def)
  qed
qed

lemma powi_less_exp:
  assumes "(2 :: rat) powi m < 2 powi n"
  shows "m < n"
proof (rule ccontr)
  assume "\<not> m < n"
  then have "n \<le> m"
    by simp
  then have "(2 :: rat) powi n \<le> 2 powi m"
    by (rule power_int_increasing) simp
  with assms show False
    by simp
qed

lemma ilog2_unique:
  assumes "0 < x" and "2 powi k \<le> x" and "x < 2 powi (k + 1)"
  shows "ilog2 x = k"
proof -
  from ilog2_bounds [OF assms(1)] have b: "2 powi (ilog2 x) \<le> x" "x < 2 powi (ilog2 x + 1)"
    by simp_all
  from b(1) assms(3) have "(2 :: rat) powi (ilog2 x) < 2 powi (k + 1)"
    by simp
  then have "ilog2 x < k + 1"
    by (rule powi_less_exp)
  moreover from assms(2) b(2) have "(2 :: rat) powi k < 2 powi (ilog2 x + 1)"
    by simp
  then have "k < ilog2 x + 1"
    by (rule powi_less_exp)
  ultimately show ?thesis
    by simp
qed

lemma roundHalfEven_of_int [simp]: "roundHalfEven (of_int n) = n"
  by (simp add: roundHalfEven_def)

lemma roundHalfEven_ge: "of_int n \<le> x \<Longrightarrow> n \<le> roundHalfEven x"
  by (auto simp: roundHalfEven_def Let_def le_floor_iff) linarith+

lemma roundHalfEven_le:
  assumes "x \<le> of_int n"
  shows "roundHalfEven x \<le> n"
proof (cases "x = of_int n")
  case True
  then show ?thesis by simp
next
  case False
  with assms have "x < of_int n"
    by simp
  then have "\<lfloor>x\<rfloor> < n"
    by (simp add: floor_less_iff)
  then show ?thesis
    by (simp add: roundHalfEven_def Let_def)
qed

lemma two_powi_pos [simp]: "(0 :: rat) < 2 powi k"
  by (simp add: zero_less_power_int)

lemma two_powi_split: "(2 :: rat) powi (a + b) = 2 powi a * 2 powi b"
  by (simp add: power_int_add)

lemma two_powi_quot: "(2 :: rat) powi a / 2 powi b = 2 powi (a - b)"
  by (simp add: power_int_diff)

text \<open>The scaled magnitude of a positive number lies in the range of 53-bit integers.\<close>

lemma scaled_bounds:
  assumes "0 < a" and "e = max (ilog2 a - 52) (- 1074)"
  shows "a / 2 powi e < 2 powi 53"
    and "e = ilog2 a - 52 \<Longrightarrow> 2 powi 52 \<le> a / 2 powi e"
proof -
  from ilog2_bounds [OF assms(1)]
  have lo: "2 powi (ilog2 a) \<le> a" and hi: "a < 2 powi (ilog2 a + 1)"
    by simp_all
  from assms(2) have "ilog2 a + 1 - e \<le> 53"
    by simp
  then have "(2 :: rat) powi (ilog2 a + 1 - e) \<le> 2 powi 53"
    by (rule power_int_increasing) simp
  moreover from hi have "a / 2 powi e < 2 powi (ilog2 a + 1) / 2 powi e"
    by (simp add: divide_strict_right_mono)
  ultimately show "a / 2 powi e < 2 powi 53"
    by (simp add: two_powi_quot)
  assume "e = ilog2 a - 52"
  then have "(2 :: rat) powi 52 = 2 powi (ilog2 a) / 2 powi e"
    by (simp add: two_powi_quot)
  also from lo have "\<dots> \<le> a / 2 powi e"
    by (simp add: divide_right_mono)
  finally show "2 powi 52 \<le> a / 2 powi e" .
qed

lemma fl_form:
  assumes "x \<noteq> 0"
  obtains m e where "fl x = sgn x * of_int m * 2 powi e" and "0 \<le> m" and "m \<le> 2 ^ 53"
    and "- 1074 \<le> e" and "e = max (ilog2 \<bar>x\<bar> - 52) (- 1074)"
    and "m = roundHalfEven (\<bar>x\<bar> / 2 powi e)"
proof -
  define e where "e = max (ilog2 \<bar>x\<bar> - 52) (- 1074)"
  define m where "m = roundHalfEven (\<bar>x\<bar> / 2 powi e)"
  from assms have pos: "0 < \<bar>x\<bar>"
    by simp
  have "\<bar>x\<bar> / 2 powi e \<le> of_int (2 ^ 53)"
    using scaled_bounds(1) [OF pos e_def] by simp
  then have "m \<le> 2 ^ 53"
    unfolding m_def by (rule roundHalfEven_le)
  moreover have "of_int 0 \<le> \<bar>x\<bar> / 2 powi e"
    by simp
  then have "0 \<le> m"
    unfolding m_def by (rule roundHalfEven_ge)
  moreover have "fl x = sgn x * of_int m * 2 powi e"
    using assms by (simp add: fl_def Let_def e_def m_def)
  moreover have "- 1074 \<le> e"
    by (simp add: e_def)
  ultimately show ?thesis
    using that e_def m_def by blast
qed

lemma fl_zero [simp]: "fl 0 = 0"
  by (simp add: fl_def)

lemma fl_minus: "fl (- x) = - fl x"
  by (simp add: fl_def Let_def sgn_minus)

text \<open>Every number of the format is its own rounding.\<close>

lemma fl_representable:
  assumes "x = of_int M * 2 powi E" and "\<bar>M\<bar> \<le> 2 ^ 53" and "- 1074 \<le> E"
  shows "fl x = x"
proof (cases "M = 0")
  case True
  with assms(1) show ?thesis by simp
next
  case False
  define a where "a = \<bar>x\<bar>"
  have a: "a = of_int \<bar>M\<bar> * 2 powi E"
    by (simp add: a_def assms(1) abs_mult)
  with False have pos: "0 < a"
    by simp
  define e where "e = max (ilog2 a - 52) (- 1074)"
  have "\<exists>N. a / 2 powi e = of_int N"
  proof (cases "e \<le> E")
    case True
    then have pw: "(2 :: rat) powi (E - e) = of_int (2 ^ nat (E - e))"
      by (simp add: power_int_def)
    have "a / 2 powi e = of_int \<bar>M\<bar> * (2 powi E / 2 powi e)"
      by (simp add: a)
    also have "\<dots> = of_int \<bar>M\<bar> * 2 powi (E - e)"
      by (simp only: two_powi_quot)
    also have "\<dots> = of_int (\<bar>M\<bar> * 2 ^ nat (E - e))"
      by (simp add: pw)
    finally show ?thesis ..
  next
    case False
    with assms(3) have e: "e = ilog2 a - 52"
      by (simp add: e_def)
    with False have "E + 53 \<le> ilog2 a"
      by simp
    then have "(2 :: rat) powi (E + 53) \<le> 2 powi (ilog2 a)"
      by (rule power_int_increasing) simp
    also have "\<dots> \<le> a"
      using ilog2_bounds [OF pos] by simp
    finally have "(2 :: rat) powi 53 * 2 powi E \<le> of_int \<bar>M\<bar> * 2 powi E"
      by (simp add: a two_powi_split mult.commute)
    then have "(2 :: rat) powi 53 \<le> of_int \<bar>M\<bar>"
      by (simp add: mult_le_cancel_right)
    then have "(of_int (2 ^ 53) :: rat) \<le> of_int \<bar>M\<bar>"
      by (simp add: power_int_def)
    then have "2 ^ 53 \<le> \<bar>M\<bar>"
      by (simp only: of_int_le_iff)
    with assms(2) have M: "\<bar>M\<bar> = 2 ^ 53"
      by simp
    have "(of_int \<bar>M\<bar> :: rat) = 2 powi 53"
      by (simp add: M power_int_def)
    then have "a = 2 powi 53 * 2 powi E"
      by (simp only: a)
    then have a53: "a = 2 powi (E + 53)"
      by (simp only: two_powi_split [symmetric] add.commute)
    have "ilog2 a = E + 53"
    proof (rule ilog2_unique [OF pos])
      show "2 powi (E + 53) \<le> a"
        by (simp add: a53)
      have "(2 :: rat) powi (E + 53) < 2 powi (E + 53 + 1)"
        by (rule power_int_strict_increasing) simp_all
      then show "a < 2 powi (E + 53 + 1)"
        by (simp add: a53)
    qed
    with e have "e = E + 1"
      by simp
    then have "a / 2 powi e = 2 powi 52"
      by (simp add: a53 two_powi_quot)
    also have "\<dots> = of_int (2 ^ 52)"
      by (simp add: power_int_def)
    finally show ?thesis ..
  qed
  then obtain N where N: "a / 2 powi e = of_int N"
    ..
  from False assms(1) have nz: "x \<noteq> 0"
    by simp
  then have "fl x = sgn x * of_int (roundHalfEven (a / 2 powi e)) * 2 powi e"
    by (simp add: fl_def Let_def a_def e_def)
  also have "\<dots> = sgn x * (a / 2 powi e) * 2 powi e"
    by (simp add: N)
  also have "\<dots> = sgn x * a"
    by simp
  also have "\<dots> = x"
    by (simp add: a_def sgn_mult_abs)
  finally show ?thesis .
qed

lemma fl_idem [simp]: "fl (fl x) = fl x"
proof (cases "x = 0")
  case True
  then show ?thesis by simp
next
  case False
  then obtain m e where f: "fl x = sgn x * of_int m * 2 powi e" and m: "0 \<le> m" "m \<le> 2 ^ 53"
    and e: "- 1074 \<le> e"
    by (rule fl_form)
  have "sgn x = of_int (sgn (if 0 < x then 1 else - 1))"
    using False by (simp add: sgn_if)
  then obtain s :: int where s: "sgn x = of_int s" "\<bar>s\<bar> = 1"
    using False by (auto simp: sgn_if)
  have "fl x = of_int (s * m) * 2 powi e"
    by (simp add: f s)
  moreover have "\<bar>s * m\<bar> \<le> 2 ^ 53"
    using m s by (simp add: abs_mult)
  ultimately show ?thesis
    using e by (rule fl_representable)
qed

lemma fl_of_int: "\<bar>n\<bar> \<le> 2 ^ 53 \<Longrightarrow> fl (of_int n) = of_int n"
  by (rule fl_representable [where E = 0]) simp_all

text \<open>From one upwards rounding stays within the binade of the number.\<close>

lemma fl_bounds:
  assumes "1 \<le> x"
  shows "2 powi (ilog2 x) \<le> fl x" and "fl x \<le> 2 powi (ilog2 x + 1)" and "0 \<le> ilog2 x"
proof -
  from assms have pos: "0 < \<bar>x\<bar>" and ab: "\<bar>x\<bar> = x" and sg: "sgn x = 1"
    by simp_all
  from assms have nz: "x \<noteq> 0"
    by simp
  from ilog2_bounds [of x] assms have hi: "x < 2 powi (ilog2 x + 1)"
    by simp
  from assms hi have "(2 :: rat) powi 0 < 2 powi (ilog2 x + 1)"
    by simp
  then show k: "0 \<le> ilog2 x"
    using powi_less_exp by fastforce
  from nz obtain m e where f: "fl x = sgn x * of_int m * 2 powi e" and m: "m \<le> 2 ^ 53"
    and e: "e = max (ilog2 \<bar>x\<bar> - 52) (- 1074)" and md: "m = roundHalfEven (\<bar>x\<bar> / 2 powi e)"
    by (rule fl_form)
  from e k have e': "e = ilog2 x - 52"
    by (simp add: ab)
  from scaled_bounds(2) [OF pos e] e' have "of_int (2 ^ 52) \<le> \<bar>x\<bar> / 2 powi e"
    by (simp add: ab power_int_def)
  then have "2 ^ 52 \<le> m"
    unfolding md by (rule roundHalfEven_ge)
  then have "(2 :: rat) powi 52 \<le> of_int m"
    by (simp add: power_int_def)
  then have low: "(2 :: rat) powi 52 * 2 powi e \<le> of_int m * 2 powi e"
    by (rule mult_right_mono) simp
  have low_eq: "(2 :: rat) powi 52 * 2 powi e = 2 powi (ilog2 x)"
    unfolding e' by (subst two_powi_split [symmetric]) simp
  have fx: "fl x = of_int m * 2 powi e"
    by (simp add: f sg)
  from low show "2 powi (ilog2 x) \<le> fl x"
    by (simp only: low_eq fx)
  from m have "(of_int m :: rat) \<le> 2 powi 53"
    by (simp add: power_int_def)
  then have high: "of_int m * 2 powi e \<le> (2 :: rat) powi 53 * 2 powi e"
    by (rule mult_right_mono) simp
  have "53 + (ilog2 x - 52) = ilog2 x + 1"
    by simp
  then have high_eq: "(2 :: rat) powi 53 * 2 powi e = 2 powi (ilog2 x + 1)"
    unfolding e' by (simp only: two_powi_split [symmetric])
  from high show "fl x \<le> 2 powi (ilog2 x + 1)"
    by (simp only: high_eq fx)
qed

text \<open>Rounding does not fall below a power of two that the number has reached.\<close>

lemma fl_ge_pow:
  assumes "2 ^ k \<le> x"
  shows "2 ^ k \<le> fl x"
proof -
  have one: "(1 :: rat) \<le> 2 ^ k"
    by simp
  from one assms have x: "1 \<le> x"
    by (rule order_trans)
  from assms have "(2 :: rat) powi (int k) \<le> x"
    by (simp add: power_int_def)
  also from ilog2_bounds [of x] x have "x < 2 powi (ilog2 x + 1)"
    by simp
  finally have "int k < ilog2 x + 1"
    by (rule powi_less_exp)
  then have "int k \<le> ilog2 x"
    by simp
  then have "(2 :: rat) powi (int k) \<le> 2 powi (ilog2 x)"
    by (rule power_int_increasing) simp
  also have "\<dots> \<le> fl x"
    by (rule fl_bounds [OF x])
  finally show ?thesis
    by (simp add: power_int_def)
qed

lemma fl_less_pow:
  assumes "1 \<le> x" and "x < 2 ^ k"
  shows "fl x \<le> 2 ^ k"
proof -
  from ilog2_bounds [of x] assms(1) have "2 powi (ilog2 x) \<le> x"
    by simp
  also from assms(2) have "x < 2 powi (int k)"
    by (simp add: power_int_def)
  finally have "ilog2 x < int k"
    by (rule powi_less_exp)
  then have "ilog2 x + 1 \<le> int k"
    by simp
  then have "(2 :: rat) powi (ilog2 x + 1) \<le> 2 powi (int k)"
    by (rule power_int_increasing) simp
  with fl_bounds(2) [OF assms(1)] have "fl x \<le> 2 powi (int k)"
    by (rule order_trans)
  then show ?thesis
    by (simp add: power_int_def)
qed

lemma binary64_of_int: "\<bar>n\<bar> \<le> 2 ^ 53 \<Longrightarrow> binary64 (of_int n)"
proof -
  assume n: "\<bar>n\<bar> \<le> 2 ^ 53"
  then have "\<bar>n\<bar> < 2 ^ 1024"
    by simp
  then have "\<bar>of_int n :: rat\<bar> < of_int (2 ^ 1024)"
    by (simp only: of_int_abs [symmetric] of_int_less_iff)
  with n show ?thesis
    by (simp add: binary64_def fl_of_int)
qed

lemma binary64_numerals [simp]:
  "binary64 0" "binary64 1" "binary64 2" "binary64 1000"
  using binary64_of_int [of 0] binary64_of_int [of 1] binary64_of_int [of 2]
    binary64_of_int [of 1000]
  by simp_all

lemma binary64_minus [simp]: "binary64 (- x) = binary64 x"
  by (auto simp: binary64_def fl_minus)

lemma round64_binary64 [simp]: "binary64 x \<Longrightarrow> round64 x = Finite x"
  by (simp add: round64_def binary64_def Let_def)

lemma round64_cases:
  obtains y where "round64 x = Finite y" and "binary64 y" and "y = fl x"
  | "round64 x = PosInf" and "0 < x" | "round64 x = NegInf" and "x < 0"
proof (cases "2 ^ 1024 \<le> \<bar>fl x\<bar>")
  case False
  then have "round64 x = Finite (fl x)" "binary64 (fl x)"
    by (simp_all add: round64_def binary64_def Let_def)
  then show ?thesis
    using that(1) by blast
next
  case True
  then have "x \<noteq> 0"
    by auto
  with True show ?thesis
    using that(2,3) by (cases "0 < x") (simp_all add: round64_def Let_def)
qed

lemma round64_not_NaN [simp]: "round64 x \<noteq> NaN"
  by (simp add: round64_def Let_def)

lemma fl_nonneg: "0 \<le> x \<Longrightarrow> 0 \<le> fl x"
proof (cases "x = 0")
  case True
  then show ?thesis by simp
next
  case False
  assume "0 \<le> x"
  with False have sg: "sgn x = 1"
    by simp
  from False obtain m e where "fl x = sgn x * of_int m * 2 powi e" and "0 \<le> m"
    by (rule fl_form)
  then show ?thesis
    by (simp add: sg)
qed

lemma fl_abs: "fl \<bar>x\<bar> = \<bar>fl x\<bar>"
proof (cases "0 \<le> x")
  case True
  then show ?thesis
    by (simp add: fl_nonneg)
next
  case False
  then have "0 \<le> - x"
    by simp
  then have "0 \<le> fl (- x)"
    by (rule fl_nonneg)
  with False show ?thesis
    by (simp add: fl_minus)
qed

lemma fl_below_one:
  assumes "0 < x" and "x < 1"
  shows "fl x \<le> 1"
proof -
  from assms have nz: "x \<noteq> 0" and ab: "\<bar>x\<bar> = x" and sg: "sgn x = 1"
    by simp_all
  from ilog2_bounds [OF assms(1)] have "2 powi (ilog2 x) \<le> x"
    by simp
  also from assms(2) have "x < 2 powi 0"
    by simp
  finally have neg: "ilog2 x < 0"
    by (rule powi_less_exp)
  from nz obtain m e where f: "fl x = sgn x * of_int m * 2 powi e" and m: "m \<le> 2 ^ 53"
    and e: "e = max (ilog2 \<bar>x\<bar> - 52) (- 1074)"
    by (rule fl_form)
  from e neg have "e \<le> - 53"
    by (simp add: ab)
  then have "(2 :: rat) powi e \<le> 2 powi (- 53)"
    by (rule power_int_increasing) simp
  moreover from m have "(of_int m :: rat) \<le> 2 powi 53"
    by (simp add: power_int_def)
  moreover have "(0 :: rat) \<le> 2 powi e"
    by simp
  ultimately have "of_int m * 2 powi e \<le> (2 :: rat) powi 53 * 2 powi (- 53)"
    by (intro mult_mono) simp_all
  also have "\<dots> = 1"
    by (simp only: two_powi_split [symmetric]) simp
  finally show ?thesis
    by (simp add: f sg)
qed

lemma fl_pow: "fl (2 ^ k) = 2 ^ k"
  by (rule fl_representable [where M = 1 and E = "int k"]) (simp_all add: power_int_def)

lemma fl_abs_le:
  assumes "\<bar>x\<bar> \<le> 2 ^ k"
  shows "\<bar>fl x\<bar> \<le> 2 ^ k"
proof -
  define a where "a = \<bar>x\<bar>"
  have one: "(1 :: rat) \<le> 2 ^ k"
    by simp
  have "fl a \<le> 2 ^ k"
  proof -
    consider "a = 0" | "0 < a" "a < 1" | "1 \<le> a" "a < 2 ^ k" | "a = 2 ^ k"
      using assms by (fastforce simp: a_def)
    then show ?thesis
    proof cases
      case 1
      then show ?thesis by simp
    next
      case 2
      then have "fl a \<le> 1"
        by (rule fl_below_one)
      with one show ?thesis
        by (rule order_trans [rotated])
    next
      case 3
      then show ?thesis
        by (rule fl_less_pow)
    next
      case 4
      then show ?thesis
        by (simp add: fl_pow)
    qed
  qed
  then show ?thesis
    by (simp add: a_def fl_abs)
qed

lemma round64_small:
  assumes "\<bar>x\<bar> \<le> 2 ^ 1023"
  shows "round64 x = Finite (fl x)" and "binary64 (fl x)"
proof -
  from assms have "\<bar>fl x\<bar> \<le> 2 ^ 1023"
    by (rule fl_abs_le)
  also have "(2 :: rat) ^ 1023 < 2 ^ 1024"
    by simp
  finally have small: "\<bar>fl x\<bar> < 2 ^ 1024" .
  then show "round64 x = Finite (fl x)"
    by (simp add: round64_def Let_def)
  from small show "binary64 (fl x)"
    by (simp add: binary64_def)
qed





section \<open>Decimal digits\<close>













section \<open>Formatting the volume\<close>




lemma geq_Finite [simp]: "geq (Finite a) (Finite b) \<longleftrightarrow> b \<le> a"
  by (auto simp: geq_def)


lemma toFixed2_values:
  "toFixed2 (Finite 999) = js ''999.00''"
  "toFixed2 (Finite (3 / 2)) = js ''1.50''"
  "toFixed2 (Finite (5 / 2)) = js ''2.50''"
  "toFixed2 (Finite 0) = js ''0.00''"
  by code_simp+



text \<open>
  Where binary64 and exact arithmetic part: 1005 / 1000 is rounded to a number just below
  1.005, so the volume 1005 is printed as 1.00K.
\<close>

lemma formatVolume_1005:
  "formatVolume_usd (Finite 1005) = js ''$1.00K''" "formatVolume (Finite 1005) = js ''1.00K BNB''"
proof -
  have "fl (201 / 200) = 1131529406376837 / 1125899906842624"
    by code_simp
  then have "divide (Finite 1005) 1000 = Finite (1131529406376837 / 1125899906842624)"
    by (simp add: round64_small)
  moreover have "toFixed2 (Finite (1131529406376837 / 1125899906842624)) = js ''1.00''"
    by code_simp
  ultimately show "formatVolume_usd (Finite 1005) = js ''$1.00K''"
    "formatVolume (Finite 1005) = js ''1.00K BNB''"
    by (simp_all add: formatVolume_usd_def formatVolume_def del: divide.simps)
      (simp_all add: js_def)
qed

lemma formatNumber_values:
  "formatNumber (Finite 1234567) = js ''1 234 567''"
  "formatNumber (Finite (10 ^ 21)) = js ''1e+21''"
  "formatNumber NaN = js ''NaN''"
  by code_simp+




section \<open>A failed statistics request\<close>

lemma Math_min_one:
  assumes "a = PosInf \<or> (\<exists>z. a = Finite z \<and> 1 \<le> z)"
  shows "Math_min a (Finite 1) = Finite 1"
  using assms by (auto simp: Math_min_def)

lemma round64_ge_one:
  assumes "1 \<le> x"
  shows "round64 x = PosInf \<or> (\<exists>z. round64 x = Finite z \<and> 1 \<le> z)"
proof (cases x rule: round64_cases)
  case (1 y)
  from fl_ge_pow [of 0 x] assms have "1 \<le> fl x"
    by simp
  with 1 show ?thesis
    by simp
next
  case 2
  then show ?thesis
    by simp
next
  case 3
  with assms show ?thesis
    by simp
qed

lemma fl_of_int_ge:
  assumes "1000 \<le> e"
  shows "1000 \<le> fl (of_int e)"
proof (cases "e \<le> 2 ^ 53")
  case True
  with assms have "\<bar>e\<bar> \<le> 2 ^ 53"
    by simp
  then have "fl (of_int e) = of_int e"
    by (rule fl_of_int)
  with assms show ?thesis
    by simp
next
  case False
  then have "(2 :: int) ^ 53 \<le> e"
    by simp
  then have "(of_int (2 ^ 53) :: rat) \<le> of_int e"
    by (simp only: of_int_le_iff)
  then have "(2 :: rat) ^ 53 \<le> of_int e"
    by simp
  then have "(2 :: rat) ^ 53 \<le> fl (of_int e)"
    by (rule fl_ge_pow)
  then show ?thesis
    by simp
qed

lemma progressAt_done:
  assumes "1000 \<le> e"
  shows "progressAt e = Finite 1"
proof -
  have "divide (round64 (of_int e)) duration = PosInf
      \<or> (\<exists>z. divide (round64 (of_int e)) duration = Finite z \<and> 1 \<le> z)"
  proof (cases "of_int e :: rat" rule: round64_cases)
    case (1 y)
    with fl_of_int_ge [OF assms] have "1 \<le> y / 1000"
      by simp
    then have "round64 (y / 1000) = PosInf \<or> (\<exists>z. round64 (y / 1000) = Finite z \<and> 1 \<le> z)"
      by (rule round64_ge_one)
    with 1 show ?thesis
      by (simp add: duration_def)
  next
    case 2
    then show ?thesis
      by simp
  next
    case 3
    with assms show ?thesis
      by simp
  qed
  then show ?thesis
    unfolding progressAt_def by (rule Math_min_one)
qed

lemma progressAt_stop:
  assumes "\<not> less (progressAt e) (Finite 1)"
  shows "progressAt e = Finite 1"
proof -
  define q where "q = divide (round64 (of_int e)) duration"
  have "q \<noteq> NaN"
    by (cases "of_int e :: rat" rule: round64_cases) (simp_all add: q_def)
  with assms show ?thesis
    unfolding progressAt_def q_def [symmetric]
    by (cases q) (auto simp: Math_min_def split: if_splits)
qed

lemma currentValueAt_zero:
  assumes "binary64 a" and "progressAt e = Finite 1"
  shows "currentValueAt (Finite a) (Finite 0) e = Finite 0"
  using assms by (simp add: currentValueAt_def Let_def sub_def)

lemma currentValueAt_overflow:
  assumes "progressAt e = Finite 1"
  shows "currentValueAt PosInf (Finite 0) e = NaN"
  using assms by (simp add: currentValueAt_def Let_def sub_def)

lemma formatNumber_0: "formatNumber (Finite 0) = js ''0''"
  by (simp add: formatNumber_def js_def isDigit_def isWordChar_def)

lemma frameText_done:
  assumes "binary64 a" and "progressAt e = Finite 1"
  shows "frameText (Finite a) (Finite 0) e = js ''0''"
  using assms by (simp add: frameText_def currentValueAt_zero formatNumber_0)

lemma update_done:
  assumes "binary64 a" and "\<exists>x \<in> set (e # later). 1000 \<le> x"
  shows "update (Finite a) (Finite 0) e later = js ''0''"
  using assms(2)
proof (induction later arbitrary: e)
  case Nil
  then have "progressAt e = Finite 1"
    by (simp add: progressAt_done)
  with assms(1) show ?case
    by (simp add: frameText_done)
next
  case (Cons e' later)
  show ?case
  proof (cases "less (progressAt e) (Finite 1)")
    case True
    then have "progressAt e \<noteq> Finite 1"
      by auto
    then have "\<not> 1000 \<le> e"
      using progressAt_done by blast
    with Cons.prems have "\<exists>x \<in> set (e' # later). 1000 \<le> x"
      by auto
    then have "update (Finite a) (Finite 0) e' later = js ''0''"
      by (rule Cons.IH)
    with True show ?thesis
      by simp
  next
    case False
    then have "progressAt e = Finite 1"
      by (rule progressAt_stop)
    with assms(1) have "frameText (Finite a) (Finite 0) e = js ''0''"
      by (rule frameText_done)
    with False show ?thesis
      by simp
  qed
qed

lemma digitValue_less: "digitValue radix c = Some d \<Longrightarrow> d < radix"
  by (auto simp: digitValue_def Let_def split: if_splits option.splits)

lemma foldl_digitValue_bound:
  assumes "\<forall>c \<in> set z. digitValue radix c \<noteq> None"
  shows "foldl (\<lambda>acc c. acc * radix + the (digitValue radix c)) a z < (a + 1) * radix ^ length z"
  using assms
proof (induction z arbitrary: a)
  case Nil
  then show ?case by simp
next
  case (Cons c z)
  from Cons.prems obtain d where d: "digitValue radix c = Some d"
    by auto
  then have "d < radix"
    by (rule digitValue_less)
  then have "a * radix + d + 1 \<le> (a + 1) * radix"
    by simp
  then have le: "(a * radix + d + 1) * radix ^ length z \<le> (a + 1) * radix * radix ^ length z"
    by (rule mult_le_mono1)
  from Cons.prems have "\<forall>c \<in> set z. digitValue radix c \<noteq> None"
    by simp
  then have "foldl (\<lambda>acc c. acc * radix + the (digitValue radix c)) (a * radix + d) z
      < (a * radix + d + 1) * radix ^ length z"
    by (rule Cons.IH)
  also note le
  also have "(a + 1) * radix * radix ^ length z = (a + 1) * radix ^ length (c # z)"
    by (simp only: length_Cons power_Suc mult.assoc)
  finally show ?case
    by (simp only: foldl_Cons d option.sel)
qed

lemma parseInt_bound:
  assumes "parseInt str = Some v"
  shows "\<bar>v\<bar> < 16 ^ length str"
proof -
  define s1 where "s1 = dropWhile isWhiteSpace str"
  define s2 where "s2 = (if take 1 s1 = [0x2D] \<or> take 1 s1 = [0x2B] then drop 1 s1 else s1)"
  define hex where "hex \<longleftrightarrow> take 2 s2 = [0x30, 0x78] \<or> take 2 s2 = [0x30, 0x58]"
  define radix :: nat where "radix = (if hex then 16 else 10)"
  define s3 where "s3 = (if hex then drop 2 s2 else s2)"
  define z where "z = takeWhile (\<lambda>c. digitValue radix c \<noteq> None) s3"
  define w where "w = foldl (\<lambda>acc c. acc * radix + the (digitValue radix c)) 0 z"
  have p: "parseInt str = (if z = [] then None
      else Some (if take 1 s1 = [0x2D] then - int w else int w))"
    unfolding parseInt_def Let_def w_def z_def s3_def radix_def hex_def s2_def s1_def
    by (rule refl)
  with assms have v: "\<bar>v\<bar> = int w"
    by (auto split: if_splits)
  have "length s1 \<le> length str"
    unfolding s1_def by (rule length_dropWhile_le)
  moreover have "length s2 \<le> length s1"
    by (simp add: s2_def)
  moreover have "length s3 \<le> length s2"
    by (simp add: s3_def)
  moreover have "length z \<le> length s3"
    unfolding z_def by (rule length_takeWhile_le)
  ultimately have len: "length z \<le> length str"
    by simp
  have "\<forall>c \<in> set z. digitValue radix c \<noteq> None"
    unfolding z_def by (auto dest: set_takeWhileD)
  then have "w < (0 + 1) * radix ^ length z"
    unfolding w_def by (rule foldl_digitValue_bound)
  also have "\<dots> \<le> 16 ^ length z"
    by (simp add: radix_def power_mono)
  also from len have "\<dots> \<le> (16 :: nat) ^ length str"
    by (simp add: power_increasing)
  finally have "int w < int (16 ^ length str)"
    by (simp only: of_nat_less_iff)
  then show ?thesis
    by (simp add: v)
qed

text \<open>What a slot with a short text shows is read as a finite number.\<close>

lemma startValueOf_binary64:
  assumes "length shown \<le> 255"
  shows "\<exists>a. startValueOf shown = Finite a \<and> binary64 a"
proof (cases "parseInt (filter (\<lambda>c. \<not> isWhiteSpace c) shown)")
  case None
  then show ?thesis
    by (simp add: startValueOf_def)
next
  case (Some v)
  define str where "str = filter (\<lambda>c. \<not> isWhiteSpace c) shown"
  from Some have "\<bar>v\<bar> < 16 ^ length str"
    unfolding str_def by (rule parseInt_bound)
  also have "(16 :: int) ^ length str \<le> 16 ^ 255"
    using assms by (intro power_increasing) (simp_all add: str_def le_trans [OF length_filter_le])
  finally have "\<bar>v\<bar> \<le> 16 ^ 255"
    by simp
  then have "(of_int \<bar>v\<bar> :: rat) \<le> of_int (16 ^ 255)"
    by (simp only: of_int_le_iff)
  then have "\<bar>of_int v :: rat\<bar> \<le> 2 ^ 1023"
    by simp
  then have "round64 (of_int v) = Finite (fl (of_int v))" "binary64 (fl (of_int v))"
    by (rule round64_small)+
  with Some show ?thesis
    by (simp add: startValueOf_def)
qed

lemma animateNumber_done:
  assumes "finished fr" and "length shown \<le> 255"
  shows "animateNumber shown (Finite 0) fr = js ''0''"
proof -
  from startValueOf_binary64 [OF assms(2)] obtain a
    where a: "startValueOf shown = Finite a" "binary64 a"
    by blast
  from assms(1) have "\<exists>x \<in> set (fst fr # snd fr). 1000 \<le> x"
    by (simp add: finished_def)
  with a(2) have "update (Finite a) (Finite 0) (fst fr) (snd fr) = js ''0''"
    by (rule update_done)
  then show ?thesis
    by (simp add: animateNumber_def a(1))
qed

lemma fl_frame_steps:
  "fl 700 = 700" "fl 100 = 100"
  "fl (7 / 10) = 3152519739159347 / 4503599627370496"
  "fl (5854679515581645 / 4503599627370496) = 5854679515581645 / 4503599627370496"
  "fl (18456992739323019545360043385815 / 20282409603651670423947251286016) = 4098275660907151 / 4503599627370496"
  "fl (102456891522678775 / 1125899906842624) = 6403555720167423 / 70368744177664"
  "fl (6403555720167423 / 70368744177664) = 6403555720167423 / 70368744177664"
  by code_simp+

lemma floor_frame: "\<lfloor>6403555720167423 / 70368744177664 :: rat\<rfloor> = 90"
  by (simp add: floor_eq_iff)

lemma formatNumber_90: "formatNumber (Finite 90) = js ''90''"
  by code_simp

text \<open>A frame on the way: 700 ms into the animation from 0 to 100 the counter shows 90.\<close>

lemma frameText_700: "frameText (Finite 0) (Finite 100) 700 = js ''90''"
proof -
  have progress: "progressAt 700 = Finite (3152519739159347 / 4503599627370496)"
    by (simp add: progressAt_def duration_def round64_small fl_frame_steps Math_min_def)
  have ease: "mul (Finite (3152519739159347 / 4503599627370496)) (sub (Finite 2) (Finite (3152519739159347 / 4503599627370496)))
      = Finite (4098275660907151 / 4503599627370496)"
    by (simp add: sub_def round64_small fl_frame_steps)
  have "currentValueAt (Finite 0) (Finite 100) 700 = Finite 90"
    unfolding currentValueAt_def Let_def progress ease
    by (simp add: sub_def round64_small fl_frame_steps floor_frame)
  then show ?thesis
    by (simp add: frameText_def formatNumber_90)
qed

lemma three_items:
  "3 \<le> length xs \<Longrightarrow> \<exists>a b c rest. xs = a # b # c # rest"
  by (auto simp: Suc_le_length_iff numeral_3_eq_3)

lemma counterItems_updateStatsDisplay:
  assumes "3 \<le> length (counterItems s)"
  shows "span_text (counterItems (updateStatsDisplay fmt stats fr0 fr2 s) ! 0)
           = map_option (\<lambda>t. animateNumber t (token_created stats) fr0)
               (span_text (counterItems s ! 0))
     \<and> span_text (counterItems (updateStatsDisplay fmt stats fr0 fr2 s) ! 1)
           = map_option (\<lambda>_. fmt (trading_volume stats)) (span_text (counterItems s ! 1))
     \<and> span_text (counterItems (updateStatsDisplay fmt stats fr0 fr2 s) ! 2)
           = map_option (\<lambda>t. animateNumber t (active_users stats) fr2)
               (span_text (counterItems s ! 2))"
proof -
  from three_items [OF assms] obtain a b c rest where "counterItems s = a # b # c # rest"
    by blast
  then show ?thesis
    by (simp add: updateStatsDisplay_def Let_def numeral_2_eq_2)
qed

lemma shortTexts_nth:
  assumes "shortTexts s" and "i < length (counterItems s)"
    and "span_text (counterItems s ! i) = Some t"
  shows "length t \<le> 255"
proof -
  from assms(2) have "counterItems s ! i \<in> set (counterItems s)"
    by (rule nth_mem)
  with assms(1) have "case span_text (counterItems s ! i) of None \<Rightarrow> True
      | Some t \<Rightarrow> length t \<le> 255"
    unfolding shortTexts_def by (rule bspec)
  with assms(3) show ?thesis
    by simp
qed

lemma animated_span_zero:
  assumes "shortTexts s" and "i < length (counterItems s)" and "finished fr"
  shows "map_option (\<lambda>t. animateNumber t (Finite 0) fr) (span_text (counterItems s ! i))
     = map_option (\<lambda>_. js ''0'') (span_text (counterItems s ! i))"
proof (cases "span_text (counterItems s ! i)")
  case None
  then show ?thesis by simp
next
  case (Some t)
  with assms(1,2) have "length t \<le> 255"
    by (rule shortTexts_nth)
  with assms(3) have "animateNumber t (Finite 0) fr = js ''0''"
    by (rule animateNumber_done)
  with Some show ?thesis
    by simp
qed

text \<open>
  C4.  When the statistics request fails (the fetch rejects, or the status lies outside
  200..299 whatever the body says, or the body is not JSON), the snapshot handed to the
  renderer is the zeroed one.  On a page with its three counter slots, none of them
  holding a text of more than 255 characters, once the two number animations have run to
  their last frame, every counter that has a display element shows zero: \<open>0\<close> for tokens
  and users and the formatted zero volume (\<open>$0.00\<close>, or \<open>0.00 BNB\<close> in the other
  variant), whatever the slots showed before.
\<close>

theorem fetchStats_failure_shows_zero:
  assumes "r = NetworkError
     \<or> (\<exists>status body. r = Response status body
           \<and> (status < 200 \<or> 299 < status \<or> body = None))"
  shows "fetchStats_resume fmt r fr0 fr2 s = updateStatsDisplay fmt zeroStats fr0 fr2 s
     \<and> (3 \<le> length (counterItems s) \<and> shortTexts s \<and> finished fr0 \<and> finished fr2 \<longrightarrow>
          span_text (counterItems (fetchStats_resume fmt r fr0 fr2 s) ! 0)
            = map_option (\<lambda>_. js ''0'') (span_text (counterItems s ! 0))
          \<and> span_text (counterItems (fetchStats_resume fmt r fr0 fr2 s) ! 1)
            = map_option (\<lambda>_. fmt (Finite 0)) (span_text (counterItems s ! 1))
          \<and> span_text (counterItems (fetchStats_resume fmt r fr0 fr2 s) ! 2)
            = map_option (\<lambda>_. js ''0'') (span_text (counterItems s ! 2)))
     \<and> formatVolume_usd (Finite 0) = js ''$0.00'' \<and> formatVolume (Finite 0) = js ''0.00 BNB''"
proof -
  from assms have "received r = None"
    by (auto simp: response_ok_def)
  then have forwarded:
    "fetchStats_resume fmt r fr0 fr2 s = updateStatsDisplay fmt zeroStats fr0 fr2 s"
    by (simp add: fetchStats_resume_def)
  have shown: "span_text (counterItems (fetchStats_resume fmt r fr0 fr2 s) ! 0)
            = map_option (\<lambda>_. js ''0'') (span_text (counterItems s ! 0))
          \<and> span_text (counterItems (fetchStats_resume fmt r fr0 fr2 s) ! 1)
            = map_option (\<lambda>_. fmt (Finite 0)) (span_text (counterItems s ! 1))
          \<and> span_text (counterItems (fetchStats_resume fmt r fr0 fr2 s) ! 2)
            = map_option (\<lambda>_. js ''0'') (span_text (counterItems s ! 2))"
    if "3 \<le> length (counterItems s)" "shortTexts s" "finished fr0" "finished fr2"
  proof -
    note rendered = counterItems_updateStatsDisplay [OF that(1), of fmt zeroStats fr0 fr2]
    from that(1) have i: "0 < length (counterItems s)" "2 < length (counterItems s)"
      by arith+
    have zero: "token_created zeroStats = Finite 0" "trading_volume zeroStats = Finite 0"
      "active_users zeroStats = Finite 0"
      by (simp_all add: zeroStats_def)
    note tokens = animated_span_zero [OF that(2) i(1) that(3)]
    note users = animated_span_zero [OF that(2) i(2) that(4)]
    from rendered show ?thesis
      unfolding forwarded by (simp only: zero tokens users)
  qed
  have usd: "formatVolume_usd (Finite 0) = js ''$0.00''"
    by (simp add: formatVolume_usd_def toFixed2_values) (simp add: js_def)
  have bnb: "formatVolume (Finite 0) = js ''0.00 BNB''"
    by (simp add: formatVolume_def toFixed2_values) (simp add: js_def)
  have display: "3 \<le> length (counterItems s) \<and> shortTexts s \<and> finished fr0 \<and> finished fr2 \<longrightarrow>
          span_text (counterItems (fetchStats_resume fmt r fr0 fr2 s) ! 0)
            = map_option (\<lambda>_. js ''0'') (span_text (counterItems s ! 0))
          \<and> span_text (counterItems (fetchStats_resume fmt r fr0 fr2 s) ! 1)
            = map_option (\<lambda>_. fmt (Finite 0)) (span_text (counterItems s ! 1))
          \<and> span_text (counterItems (fetchStats_resume fmt r fr0 fr2 s) ! 2)
            = map_option (\<lambda>_. js ''0'') (span_text (counterItems s ! 2))"
  proof
    assume pre: "3 \<le> length (counterItems s) \<and> shortTexts s \<and> finished fr0 \<and> finished fr2"
    then have "3 \<le> length (counterItems s)" "shortTexts s" "finished fr0" "finished fr2"
      by simp_all
    then show "span_text (counterItems (fetchStats_resume fmt r fr0 fr2 s) ! 0)
            = map_option (\<lambda>_. js ''0'') (span_text (counterItems s ! 0))
          \<and> span_text (counterItems (fetchStats_resume fmt r fr0 fr2 s) ! 1)
            = map_option (\<lambda>_. fmt (Finite 0)) (span_text (counterItems s ! 1))
          \<and> span_text (counterItems (fetchStats_resume fmt r fr0 fr2 s) ! 2)
            = map_option (\<lambda>_. js ''0'') (span_text (counterItems s ! 2))"
      by (rule shown)
  qed
  from forwarded display usd bnb show ?thesis
    by (intro conjI) assumption+
qed

theorem fetchStats_failure_shows_zero_witness:
  "(500 :: nat) > 299
   \<and> 3 \<le> length (counterItems tickerPage) \<and> shortTexts tickerPage
   \<and> finished (0, [16, 500, 1001])
   \<and> span_text (counterItems (fetchStats_resume formatVolume_usd (Response 500 (Some \<lparr>token_created = Finite 5, trading_volume = Finite 7000, active_users = Finite 9\<rparr>))
           (0, [16, 500, 1001]) (0, [16, 500, 1001]) tickerPage) ! 0) = Some (js ''0'')
   \<and> span_text (counterItems (fetchStats_resume formatVolume_usd (Response 500 (Some \<lparr>token_created = Finite 5, trading_volume = Finite 7000, active_users = Finite 9\<rparr>))
           (0, [16, 500, 1001]) (0, [16, 500, 1001]) tickerPage) ! 1) = Some (js ''$0.00'')
   \<and> span_text (counterItems (fetchStats_resume formatVolume_usd (Response 500 (Some \<lparr>token_created = Finite 5, trading_volume = Finite 7000, active_users = Finite 9\<rparr>))
           (0, [16, 500, 1001]) (0, [16, 500, 1001]) tickerPage) ! 2) = Some (js ''0'')"
proof -
  have r: "Response 500 (Some \<lparr>token_created = Finite 5, trading_volume = Finite 7000, active_users = Finite 9\<rparr>) = NetworkError
     \<or> (\<exists>status body.
           Response 500 (Some \<lparr>token_created = Finite 5, trading_volume = Finite 7000, active_users = Finite 9\<rparr>)
             = Response status body
           \<and> (status < 200 \<or> 299 < status \<or> body = None))"
    by simp
  have st: "(500 :: nat) > 299"
    by simp
  have len: "3 \<le> length (counterItems tickerPage)"
    by (simp add: tickerPage_def)
  have short: "shortTexts tickerPage"
    by (simp add: shortTexts_def tickerPage_def js_def)
  have fin: "finished (0, [16, 500, 1001])"
    by (simp add: finished_def)
  have spans: "span_text (counterItems tickerPage ! 0) = Some (js ''1 234'')"
    "span_text (counterItems tickerPage ! 1) = Some (js ''$5.00K'')"
    "span_text (counterItems tickerPage ! 2) = Some (js ''77'')"
    by (simp_all add: tickerPage_def)
  note failure = fetchStats_failure_shows_zero [OF r, of formatVolume_usd "(0, [16, 500, 1001])"
      "(0, [16, 500, 1001])" tickerPage]
  from failure have usd: "formatVolume_usd (Finite 0) = js ''$0.00''"
    by (elim conjE)
  from len short fin have "3 \<le> length (counterItems tickerPage) \<and> shortTexts tickerPage
      \<and> finished (0, [16, 500, 1001]) \<and> finished (0, [16, 500, 1001])"
    by (intro conjI)
  with failure [THEN conjunct2, THEN conjunct1]
  have "span_text (counterItems (fetchStats_resume formatVolume_usd (Response 500 (Some \<lparr>token_created = Finite 5, trading_volume = Finite 7000, active_users = Finite 9\<rparr>))
           (0, [16, 500, 1001]) (0, [16, 500, 1001]) tickerPage) ! 0)
            = map_option (\<lambda>_. js ''0'') (span_text (counterItems tickerPage ! 0))
     \<and> span_text (counterItems (fetchStats_resume formatVolume_usd (Response 500 (Some \<lparr>token_created = Finite 5, trading_volume = Finite 7000, active_users = Finite 9\<rparr>))
           (0, [16, 500, 1001]) (0, [16, 500, 1001]) tickerPage) ! 1)
            = map_option (\<lambda>_. formatVolume_usd (Finite 0)) (span_text (counterItems tickerPage ! 1))
     \<and> span_text (counterItems (fetchStats_resume formatVolume_usd (Response 500 (Some \<lparr>token_created = Finite 5, trading_volume = Finite 7000, active_users = Finite 9\<rparr>))
           (0, [16, 500, 1001]) (0, [16, 500, 1001]) tickerPage) ! 2)
            = map_option (\<lambda>_. js ''0'') (span_text (counterItems tickerPage ! 2))"
    by (rule mp)
  then have "span_text (counterItems (fetchStats_resume formatVolume_usd (Response 500 (Some \<lparr>token_created = Finite 5, trading_volume = Finite 7000, active_users = Finite 9\<rparr>))
           (0, [16, 500, 1001]) (0, [16, 500, 1001]) tickerPage) ! 0) = Some (js ''0'')
     \<and> span_text (counterItems (fetchStats_resume formatVolume_usd (Response 500 (Some \<lparr>token_created = Finite 5, trading_volume = Finite 7000, active_users = Finite 9\<rparr>))
           (0, [16, 500, 1001]) (0, [16, 500, 1001]) tickerPage) ! 1) = Some (js ''$0.00'')
     \<and> span_text (counterItems (fetchStats_resume formatVolume_usd (Response 500 (Some \<lparr>token_created = Finite 5, trading_volume = Finite 7000, active_users = Finite 9\<rparr>))
           (0, [16, 500, 1001]) (0, [16, 500, 1001]) tickerPage) ! 2) = Some (js ''0'')"
    by (simp only: spans option.map usd)
  with st len short fin show ?thesis
    by (intro conjI) (elim conjE | assumption)+
qed


section \<open>The polling timer\<close>

lemma timerState_at_most_one:
  assumes "timerState s"
  shows "length (timers s) \<le> 1"
proof (cases "timers s")
  case Nil
  then show ?thesis by simp
next
  case (Cons t ts)
  have "ts = []"
  proof (rule ccontr)
    assume "ts \<noteq> []"
    then obtain u where u: "u \<in> set ts"
      by (cases ts) auto
    with assms Cons have "statsUpdateTimer s = Some t" "statsUpdateTimer s = Some u"
      by (auto simp: timerState_def)
    then have "u = t"
      by simp
    moreover from assms Cons have "t \<notin> set ts"
      by (simp add: timerState_def)
    ultimately show False
      using u by simp
  qed
  with Cons show ?thesis by simp
qed

lemma clearStatsTimer_clears:
  assumes "timerState s"
  shows "timers (clearStatsTimer s) = []"
proof (cases "timers s")
  case Nil
  then show ?thesis
    by (simp add: clearStatsTimer_def clearInterval_def split: option.splits)
next
  case (Cons t ts)
  from timerState_at_most_one [OF assms] Cons have only: "timers s = [t]"
    by simp
  with assms have "statsUpdateTimer s = Some t" "0 < t"
    by (simp_all add: timerState_def)
  with only show ?thesis
    by (simp add: clearStatsTimer_def clearInterval_def)
qed

lemma clearStatsTimer_frame [simp]:
  "nextTimerId (clearStatsTimer s) = nextTimerId s"
  "effects (clearStatsTimer s) = effects s"
  by (simp_all add: clearStatsTimer_def clearInterval_def split: option.splits)

lemma fetchStats_start_frame [simp]:
  "timers (fetchStats_start s) = timers s"
  "nextTimerId (fetchStats_start s) = nextTimerId s"
  "statsUpdateTimer (fetchStats_start s) = statsUpdateTimer s"
  "effects (fetchStats_start s) = effects s @ [Fetch GetStats]"
  by (simp_all add: fetchStats_start_def)

lemma initializeStats_restarts:
  assumes "timerState s"
  shows "timers (initializeStats s) = [nextTimerId s]"
    and "statsUpdateTimer (initializeStats s) = Some (nextTimerId s)"
    and "nextTimerId (initializeStats s) = Suc (nextTimerId s)"
    and "effects (initializeStats s) = effects s @ [Fetch GetStats]"
proof -
  have "timerState (fetchStats_start s)"
    using assms by (simp add: timerState_def)
  then have cleared: "timers (clearStatsTimer (fetchStats_start s)) = []"
    by (rule clearStatsTimer_clears)
  show "timers (initializeStats s) = [nextTimerId s]"
    by (simp add: initializeStats_def setInterval_def Let_def cleared)
  show "statsUpdateTimer (initializeStats s) = Some (nextTimerId s)"
    by (simp add: initializeStats_def setInterval_def Let_def)
  show "nextTimerId (initializeStats s) = Suc (nextTimerId s)"
    by (simp add: initializeStats_def setInterval_def Let_def)
  show "effects (initializeStats s) = effects s @ [Fetch GetStats]"
    by (simp add: initializeStats_def setInterval_def Let_def)
qed

lemma initializeStats_timerState:
  assumes "timerState s"
  shows "timerState (initializeStats s)"
  using assms initializeStats_restarts [OF assms] by (simp add: timerState_def)

lemma funpow_initializeStats_timerState:
  "timerState s \<Longrightarrow> timerState ((initializeStats ^^ n) s)"
  by (induction n) (simp_all add: initializeStats_timerState)

lemma intervalElapsed_single:
  assumes "timers s = [t]"
  shows "statsFetches (intervalElapsed s) = statsFetches s + 1"
  using assms by (simp add: intervalElapsed_def statsFetches_def)

text \<open>
  C5.  Start from a page on which a repeating timer is active only if the script holds
  its identifier.  After any number of invocations of \<open>initializeStats\<close> at most one
  timer is active, and after at least one invocation exactly one, so that the interval
  elapsing once issues exactly one statistics request.  An invocation cancels every
  timer that was active before it and registers a new one.  In particular two
  invocations in succession leave one active timer, and one tick then triggers one
  fetch.
\<close>

theorem initializeStats_single_timer:
  assumes "timerState s"
  shows "length (timers ((initializeStats ^^ n) s)) \<le> 1
     \<and> (0 < n \<longrightarrow>
          length (timers ((initializeStats ^^ n) s)) = 1
          \<and> statsFetches (intervalElapsed ((initializeStats ^^ n) s))
              = statsFetches ((initializeStats ^^ n) s) + 1)
     \<and> (\<forall>t \<in> set (timers s). t \<notin> set (timers (initializeStats s)))
     \<and> length (timers (initializeStats (initializeStats s))) = 1
     \<and> statsFetches (intervalElapsed (initializeStats (initializeStats s)))
          = statsFetches (initializeStats (initializeStats s)) + 1"
proof -
  have bound: "length (timers ((initializeStats ^^ n) s)) \<le> 1"
    using assms by (intro timerState_at_most_one funpow_initializeStats_timerState)
  have again: "length (timers ((initializeStats ^^ n) s)) = 1
          \<and> statsFetches (intervalElapsed ((initializeStats ^^ n) s))
              = statsFetches ((initializeStats ^^ n) s) + 1" if "0 < n"
  proof -
    from that obtain k where n: "n = Suc k"
      by (cases n) auto
    have before: "timerState ((initializeStats ^^ k) s)"
      using assms by (rule funpow_initializeStats_timerState)
    have one: "timers ((initializeStats ^^ n) s) = [nextTimerId ((initializeStats ^^ k) s)]"
      by (simp add: n initializeStats_restarts(1) [OF before])
    then show ?thesis
      by (simp add: intervalElapsed_single)
  qed
  have cancelled: "\<forall>t \<in> set (timers s). t \<notin> set (timers (initializeStats s))"
    using assms by (auto simp: initializeStats_restarts(1) timerState_def)
  have twice: "timers (initializeStats (initializeStats s)) = [nextTimerId (initializeStats s)]"
    by (rule initializeStats_restarts(1)) (rule initializeStats_timerState [OF assms])
  from bound again cancelled twice show ?thesis
    by (simp add: intervalElapsed_single)
qed

theorem initializeStats_single_timer_witness:
  "timerState freshPage
   \<and> timers (initializeStats freshPage) = [1]
   \<and> 1 \<notin> set (timers (initializeStats (initializeStats freshPage)))
   \<and> length (timers (initializeStats (initializeStats freshPage))) = 1
   \<and> statsFetches (intervalElapsed (initializeStats (initializeStats freshPage)))
        = statsFetches (initializeStats (initializeStats freshPage)) + 1"
proof -
  have fresh: "timerState freshPage"
    by (simp add: timerState_def freshPage_def)
  then have once: "timerState (initializeStats freshPage)"
    by (rule initializeStats_timerState)
  have first: "timers (initializeStats freshPage) = [1]"
    by (simp add: initializeStats_restarts(1) [OF fresh]) (simp add: freshPage_def)
  from initializeStats_single_timer [OF once, of 1] initializeStats_single_timer [OF fresh, of 2]
    fresh first
  show ?thesis
    by (simp add: numeral_2_eq_2)
qed

end
